theory Spec2Isabelle
  imports Complex_Main
begin

section \<open>Link functions (core/utils.py)\<close>

text \<open>
  \<^verbatim>\<open>def sigmoid(x): return 1 / (1 + np.exp(-x))\<close> and
  \<^verbatim>\<open>def logit(y): return -np.log((1/y) - 1)\<close>, read over exact reals.
\<close>

definition sigmoid :: "real \<Rightarrow> real" where
  "sigmoid x = 1 / (1 + exp (- x))"

definition logit :: "real \<Rightarrow> real" where
  "logit y = - ln ((1 / y) - 1)"

section \<open>Boundary rule of the movement kernels\<close>

text \<open>
  Python's \<^verbatim>\<open>%\<close> on floats takes the sign of the divisor; over the reals it is
  \<open>x - m * floor (x / m)\<close>. A zero divisor raises; the kernels test it before use.
\<close>

definition py_mod :: "real \<Rightarrow> real \<Rightarrow> real" where
  "py_mod x m = x - m * of_int \<lfloor>x / m\<rfloor>"

text \<open>
  One axis of lines 57 to 67 of core/movement.py (and 72 to 82 of constant\_brownian.py):
  \<^verbatim>\<open>tmp2 = tmp1 % (2 * range_)\<close>, then \<^verbatim>\<open>tmp2 % range_\<close> when
  \<^verbatim>\<open>tmp2 < range_\<close> and \<^verbatim>\<open>(-tmp2) % range_\<close> otherwise.
\<close>

definition reflect :: "real \<Rightarrow> real \<Rightarrow> real" where
  "reflect range' tmp1 =
     (let tmp2 = py_mod tmp1 (2 * range')
      in if tmp2 < range' then py_mod tmp2 range' else py_mod (- tmp2) range')"

definition boundary :: "real \<times> real \<Rightarrow> real \<times> real \<Rightarrow> real \<times> real" where
  "boundary rng tmp1 = (reflect (fst rng) (fst tmp1), reflect (snd rng) (snd tmp1))"

section \<open>Step samplers\<close>

text \<open>
  Heatmap-weighted sampler, lines 50 to 52 of core/movement.py. The base of
  \<^verbatim>\<open>math.pow\<close> is \<open>1 - u\<close> with \<open>u\<close> drawn by \<^verbatim>\<open>np.random.rand()\<close>, hence in
  \<open>(0, 1]\<close>, where \<^verbatim>\<open>math.pow\<close> is the real power \<open>powr\<close>.
\<close>

definition exponent_of :: "real \<Rightarrow> real" where
  "exponent_of v = 1.1 + 0.9 * v"

definition divisor :: "real \<Rightarrow> real \<Rightarrow> real" where
  "divisor exponent u = ((1 - u) powr (1 / exponent)) * exponent"

definition magnitude :: "real \<Rightarrow> real \<Rightarrow> real \<Rightarrow> real" where
  "magnitude velocity exponent u = (velocity * (exponent - 1)) / divisor exponent u"

text \<open>
  Constant-brownian sampler, line 60 of constant\_brownian.py:
  \<^verbatim>\<open>sigma = velocity / 1.2533141373155003\<close>. The draw
  \<^verbatim>\<open>np.random.normal(0, sigma, size=(steps, num, 2))\<close> is \<open>sigma\<close> times a standard
  normal draw \<open>z\<close>, which the model takes from its random source.
\<close>

definition sigma_of :: "real \<Rightarrow> real" where
  "sigma_of velocity = velocity / 1.2533141373155003"

definition brownian_direction :: "real \<Rightarrow> real \<times> real \<Rightarrow> real \<times> real" where
  "brownian_direction velocity z = (sigma_of velocity * fst z, sigma_of velocity * snd z)"

section \<open>Movement kernels\<close>

text \<open>
  Every raise of the kernels is a value. \<open>IndexError\<close> also stands for a read outside an
  array, which the compiled kernel does not check and Python reports as IndexError.
\<close>

datatype error = ValueError | ZeroDivisionError | IndexError | KeyboardInterrupt | SystemExit

type_synonym position = "real \<times> real"

text \<open>
  Lines 46 to 49 of core/movement.py:
  \<^verbatim>\<open>index = (random_positions[j, 0] // resolution, random_positions[j, 1] // resolution)\<close>
  and \<^verbatim>\<open>value = heatmap[int(index[0]), int(index[1])]\<close>. Floor division of floats
  gives a float; \<^verbatim>\<open>int\<close> truncates toward zero; a negative index counts from the end.
\<close>

definition floor_div :: "real \<Rightarrow> real \<Rightarrow> real" where
  "floor_div x y = of_int \<lfloor>x / y\<rfloor>"

definition int_cast :: "real \<Rightarrow> int" where
  "int_cast x = (if 0 \<le> x then \<lfloor>x\<rfloor> else \<lceil>x\<rceil>)"

definition grid_index :: "real \<Rightarrow> real \<Rightarrow> int" where
  "grid_index p resolution = int_cast (floor_div p resolution)"

definition in_bounds :: "real list list \<Rightarrow> int \<times> int \<Rightarrow> bool" where
  "in_bounds heatmap ix =
     (0 \<le> fst ix \<and> fst ix < int (length heatmap) \<and>
      0 \<le> snd ix \<and> snd ix < int (length (heatmap ! nat (fst ix))))"

definition wrap_index :: "int \<Rightarrow> nat \<Rightarrow> int" where
  "wrap_index i n = (if i < 0 then i + int n else i)"

definition heatmap_at :: "real list list \<Rightarrow> int \<Rightarrow> int \<Rightarrow> error + real" where
  "heatmap_at heatmap i0 i1 =
     (let r = wrap_index i0 (length heatmap)
      in if 0 \<le> r \<and> r < int (length heatmap)
         then (let row = heatmap ! nat r; c = wrap_index i1 (length row)
               in if 0 \<le> c \<and> c < int (length row) then Inr (row ! nat c)
                  else Inl IndexError)
         else Inl IndexError)"

text \<open>
  The body of the inner loop of \<^verbatim>\<open>_movement\<close> (core/movement.py, lines 44 to 67) for
  one individual: \<open>angle\<close> is \<^verbatim>\<open>random_angles[k, j]\<close> and \<open>u\<close> the value of
  \<^verbatim>\<open>np.random.rand()\<close>. Divisions by \<^verbatim>\<open>resolution\<close>, \<^verbatim>\<open>exponent\<close> and
  \<^verbatim>\<open>2 * range_\<close> raise on zero.
\<close>

definition move_one ::
  "real list list \<Rightarrow> real \<Rightarrow> real \<Rightarrow> real \<Rightarrow> real \<Rightarrow> real \<Rightarrow> position \<Rightarrow> error + position" where
  "move_one heatmap resolution velocity range' angle u pos =
     (if resolution = 0 then Inl ZeroDivisionError
      else case heatmap_at heatmap (grid_index (fst pos) resolution)
                  (grid_index (snd pos) resolution) of
        Inl e \<Rightarrow> Inl e
      | Inr v \<Rightarrow>
          let exponent = exponent_of v
          in if exponent = 0 then Inl ZeroDivisionError
             else
               let heading = (cos angle, sin angle);
                   direction = (magnitude velocity exponent u * fst heading,
                                magnitude velocity exponent u * snd heading);
                   tmp1 = (fst pos + fst direction, snd pos + snd direction)
               in if range' = 0 then Inl ZeroDivisionError
                  else Inr (boundary (range', range') tmp1))"

text \<open>
  The body of the inner loop of \<^verbatim>\<open>Model._movement\<close> (constant\_brownian.py, lines 68 to
  82); \<open>z\<close> is the pair of standard normal draws behind \<^verbatim>\<open>directions[k, j]\<close>.
\<close>

definition brownian_one :: "real \<Rightarrow> real \<times> real \<Rightarrow> real \<times> real \<Rightarrow> position \<Rightarrow> error + position" where
  "brownian_one velocity rng z pos =
     (let direction = brownian_direction velocity z;
          tmp1 = (fst pos + fst direction, snd pos + snd direction)
      in if fst rng = 0 \<or> snd rng = 0 then Inl ZeroDivisionError
         else Inr (boundary rng tmp1))"

text \<open>
  \<^verbatim>\<open>for j in xrange(num)\<close>: the individuals are updated one after the other, in place;
  the first raise ends the run.
\<close>

fun move_all :: "(nat \<Rightarrow> position \<Rightarrow> error + position) \<Rightarrow> nat \<Rightarrow> position list \<Rightarrow> error + position list" where
  "move_all f j [] = Inr []"
| "move_all f j (p # ps) =
     (case f j p of
        Inl e \<Rightarrow> Inl e
      | Inr p' \<Rightarrow> (case move_all f (Suc j) ps of Inl e \<Rightarrow> Inl e | Inr ps' \<Rightarrow> Inr (p' # ps')))"

text \<open>
  \<^verbatim>\<open>for k in xrange(steps)\<close>: step \<open>k\<close> records the positions
  (\<^verbatim>\<open>movement[:, k, :] = random_positions\<close>) and then updates them. The result is the
  list of the recorded snapshots.
\<close>

fun run_steps ::
  "(nat \<Rightarrow> position list \<Rightarrow> error + position list) \<Rightarrow> nat \<Rightarrow> nat \<Rightarrow> position list \<Rightarrow> error + position list list" where
  "run_steps upd k 0 ps = Inr []"
| "run_steps upd k (Suc n) ps =
     (case upd k ps of
        Inl e \<Rightarrow> Inl e
      | Inr ps' \<Rightarrow> (case run_steps upd (Suc k) n ps' of Inl e \<Rightarrow> Inl e | Inr rest \<Rightarrow> Inr (ps # rest)))"

text \<open>The tensor \<^verbatim>\<open>movement[j, k, :]\<close>: individual \<open>j\<close> at step \<open>k\<close>.\<close>

definition trajectory :: "nat \<Rightarrow> position list list \<Rightarrow> position list list" where
  "trajectory num snapshots = map (\<lambda>j. map (\<lambda>snap. snap ! j) snapshots) [0..<num]"

text \<open>
  \<^verbatim>\<open>_movement\<close> of core/movement.py. The counts are naturals (a negative one makes
  \<^verbatim>\<open>np.zeros\<close> raise before the loop). The copy
  \<^verbatim>\<open>movement[:, k, :] = random_positions\<close> needs \<open>num\<close> rows of positions.
\<close>

definition movement ::
  "real list list \<Rightarrow> position list \<Rightarrow> real \<Rightarrow> nat \<Rightarrow> real \<Rightarrow> real \<Rightarrow> nat \<Rightarrow> nat \<Rightarrow>
   (nat \<Rightarrow> nat \<Rightarrow> real) \<Rightarrow> (nat \<Rightarrow> nat \<Rightarrow> real) \<Rightarrow> error + position list list" where
  "movement heatmap random_positions resolution num velocity range' days steps_per_day
     random_angles rand =
     (let steps = days * steps_per_day
      in if steps_per_day = 0 then Inl ZeroDivisionError
         else
           let velocity' = velocity / real steps_per_day
           in case run_steps
                 (\<lambda>k ps. if length ps \<noteq> num then Inl ValueError
                         else move_all
                           (\<lambda>j. move_one heatmap resolution velocity' range'
                                  (random_angles k j) (rand k j)) 0 ps)
                 0 steps random_positions of
                Inl e \<Rightarrow> Inl e
              | Inr snapshots \<Rightarrow> Inr (trajectory num snapshots))"

text \<open>\<^verbatim>\<open>Model._movement\<close> of constant\_brownian.py.\<close>

definition Model_movement ::
  "position list \<Rightarrow> real \<Rightarrow> real \<times> real \<Rightarrow> nat \<Rightarrow> (nat \<Rightarrow> nat \<Rightarrow> real \<times> real) \<Rightarrow>
   error + position list list" where
  "Model_movement random_positions velocity range' steps normal =
     (let num = length random_positions
      in case run_steps
            (\<lambda>k ps. move_all (\<lambda>j. brownian_one velocity range' (normal k j)) 0 ps)
            0 steps random_positions of
           Inl e \<Rightarrow> Inl e
         | Inr snapshots \<Rightarrow> Inr (trajectory num snapshots))"

section \<open>Calibration harness\<close>

text \<open>
  A numpy array: its shape and the value at every index tuple (0 outside the shape, as
  \<^verbatim>\<open>np.zeros\<close> leaves it).
\<close>

record ndarray =
  shape :: "nat list"
  elems :: "nat list \<Rightarrow> real"

definition np_zeros :: "nat list \<Rightarrow> ndarray" where
  "np_zeros shp = \<lparr>shape = shp, elems = (\<lambda>ix. 0)\<rparr>"

type_synonym idx3 = "nat \<times> nat \<times> nat"

text \<open>
  \<^verbatim>\<open>pool.map(f, arguments)\<close> and \<^verbatim>\<open>pool.map_async(f, arguments).get(...)\<close> return
  the results in the order of submission. \<open>task n a\<close> is what the task submitted at
  position \<open>n\<close> returns on its argument \<open>a\<close> (each task builds its own random world);
  \<open>interrupted\<close> says that a KeyboardInterrupt arrives while the harness waits.
\<close>

datatype pool_state = Running | Closed | Terminated

definition pool_map :: "(nat \<Rightarrow> 'a \<Rightarrow> 'b) \<Rightarrow> 'a list \<Rightarrow> bool \<Rightarrow> error + 'b list" where
  "pool_map task arguments interrupted =
     (if interrupted then Inl KeyboardInterrupt
      else Inr (map (\<lambda>n. task n (arguments ! n)) [0..<length arguments]))"

text \<open>
  \<^verbatim>\<open>for (i, j, k), res in zip(arguments, results): all_info[...] = res\<close>, with the
  assignment \<open>put\<close> of the harness at hand.
\<close>

fun store :: "(ndarray \<Rightarrow> idx3 \<Rightarrow> 'r \<Rightarrow> error + ndarray) \<Rightarrow> ndarray \<Rightarrow> (idx3 \<times> 'r) list \<Rightarrow> error + ndarray" where
  "store put all_info [] = Inr all_info"
| "store put all_info ((ijk, res) # rest) =
     (case put all_info ijk res of Inl e \<Rightarrow> Inl e | Inr a \<Rightarrow> store put a rest)"

subsection \<open>pycamtrap: velocity and home-range calibrators\<close>

text \<open>
  \<^verbatim>\<open>all_info[i, j, k, :] = res\<close> on a four-dimensional array, for a one-dimensional
  \<^verbatim>\<open>res\<close>: numpy accepts a row of the length of the last axis, or of length 1, which it
  repeats.
\<close>

definition set_row :: "ndarray \<Rightarrow> idx3 \<Rightarrow> real list \<Rightarrow> error + ndarray" where
  "set_row all_info ijk res =
     (let shp = shape all_info; i = fst ijk; j = fst (snd ijk); k = snd (snd ijk)
      in if length shp \<noteq> 4 \<or> \<not> (i < shp ! 0 \<and> j < shp ! 1 \<and> k < shp ! 2) then Inl IndexError
         else if \<not> (length res = shp ! 3 \<or> length res = 1) then Inl ValueError
         else Inr (all_info\<lparr>elems :=
                \<lambda>ix. if length ix = 4 \<and> ix ! 0 = i \<and> ix ! 1 = j \<and> ix ! 2 = k \<and> ix ! 3 < shp ! 3
                     then res ! (if length res = 1 then 0 else ix ! 3)
                     else elems all_info ix\<rparr>))"

text \<open>The argument object of a task (class \<^verbatim>\<open>Info\<close>) and the calibrator's attributes.\<close>

record 'm Info =
  info_movement_model :: 'm
  info_velocity :: real
  info_niche_size :: real
  info_num :: nat
  info_range :: real

record 'm calibrator =
  movement_model :: 'm
  velocities :: "real list"
  niche_sizes :: "real list"
  trials_per_world :: nat
  num_worlds :: nat
  range_km :: real

text \<open>
  \<^verbatim>\<open>VelocityCalibrator.__init__\<close> stores its arguments;
  \<^verbatim>\<open>HomeRangeCalibrator.__init__\<close> (home\_range.py, lines 28 to 29) stores the module
  constants \<^verbatim>\<open>TRIALS_PER_WORLD = 1000\<close> and \<^verbatim>\<open>NUM_WORLDS = 10\<close>.
\<close>

definition VelocityCalibrator_init ::
  "'m \<Rightarrow> real list \<Rightarrow> real list \<Rightarrow> nat \<Rightarrow> nat \<Rightarrow> real \<Rightarrow> 'm calibrator" where
  "VelocityCalibrator_init mov vels nszs tpw nw rng =
     \<lparr>movement_model = mov, velocities = vels, niche_sizes = nszs,
      trials_per_world = tpw, num_worlds = nw, range_km = rng\<rparr>"

definition TRIALS_PER_WORLD :: nat where
  "TRIALS_PER_WORLD = 1000"

definition NUM_WORLDS :: nat where
  "NUM_WORLDS = 10"

definition HomeRangeCalibrator_init ::
  "'m \<Rightarrow> real list \<Rightarrow> real list \<Rightarrow> nat \<Rightarrow> nat \<Rightarrow> real \<Rightarrow> 'm calibrator" where
  "HomeRangeCalibrator_init mov vels nszs tpw nw rng =
     \<lparr>movement_model = mov, velocities = vels, niche_sizes = nszs,
      trials_per_world = TRIALS_PER_WORLD, num_worlds = NUM_WORLDS, range_km = rng\<rparr>"

text \<open>
  \<^verbatim>\<open>calculate_velocity_info\<close> (velocity.py, lines 35 to 69). The result pairs the state
  the pool is left in with the array or the exception raised.
\<close>

definition calculate_velocity_info ::
  "'m calibrator \<Rightarrow> (nat \<Rightarrow> 'm Info \<Rightarrow> real list) \<Rightarrow> bool \<Rightarrow> pool_state \<times> (error + ndarray)" where
  "calculate_velocity_info self get_single_velocity_info interrupted =
     (let n_vel = length (velocities self);
          n_nsz = length (niche_sizes self);
          num = trials_per_world self;
          mov = movement_model self;
          all_info = np_zeros [n_vel, n_nsz, num_worlds self, trials_per_world self];
          arguments =
            [\<lparr>info_movement_model = mov, info_velocity = vel, info_niche_size = nsz,
               info_num = num, info_range = range_km self\<rparr>.
               vel \<leftarrow> velocities self, nsz \<leftarrow> niche_sizes self, k \<leftarrow> [0..<num_worlds self]]
      in case pool_map get_single_velocity_info arguments interrupted of
           Inl e \<Rightarrow> if e = KeyboardInterrupt then (Terminated, Inl SystemExit)
                    else (Running, Inl e)
         | Inr results \<Rightarrow>
             (Closed,
              store set_row all_info
                (zip [(i, j, k). i \<leftarrow> [0..<n_vel], j \<leftarrow> [0..<n_nsz], k \<leftarrow> [0..<num_worlds self]]
                   results)))"

text \<open>\<^verbatim>\<open>calculate_hr_info\<close> (home\_range.py, lines 34 to 68).\<close>

definition calculate_hr_info ::
  "'m calibrator \<Rightarrow> (nat \<Rightarrow> 'm Info \<Rightarrow> real list) \<Rightarrow> bool \<Rightarrow> pool_state \<times> (error + ndarray)" where
  "calculate_hr_info self get_single_hr_info interrupted =
     (let n_vel = length (velocities self);
          n_nsz = length (niche_sizes self);
          num = trials_per_world self;
          mov = movement_model self;
          all_info = np_zeros [n_vel, n_nsz, num_worlds self, trials_per_world self];
          arguments =
            [\<lparr>info_movement_model = mov, info_velocity = vel, info_niche_size = nsz,
               info_num = num, info_range = range_km self\<rparr>.
               vel \<leftarrow> velocities self, nsz \<leftarrow> niche_sizes self, k \<leftarrow> [0..<num_worlds self]]
      in case pool_map get_single_hr_info arguments interrupted of
           Inl e \<Rightarrow> if e = KeyboardInterrupt then (Terminated, Inl SystemExit)
                    else (Running, Inl e)
         | Inr results \<Rightarrow>
             (Closed,
              store set_row all_info
                (zip [(i, j, k). i \<leftarrow> [0..<n_vel], j \<leftarrow> [0..<n_nsz], k \<leftarrow> [0..<num_worlds self]]
                   results)))"

text \<open>The constructors run the simulations: \<^verbatim>\<open>self.hr_info = self.calculate_hr_info()\<close>.\<close>

definition VelocityCalibrator ::
  "'m \<Rightarrow> real list \<Rightarrow> real list \<Rightarrow> nat \<Rightarrow> nat \<Rightarrow> real \<Rightarrow> (nat \<Rightarrow> 'm Info \<Rightarrow> real list) \<Rightarrow> bool \<Rightarrow>
   pool_state \<times> (error + ndarray)" where
  "VelocityCalibrator mov vels nszs tpw nw rng task interrupted =
     calculate_velocity_info (VelocityCalibrator_init mov vels nszs tpw nw rng) task interrupted"

definition HomeRangeCalibrator ::
  "'m \<Rightarrow> real list \<Rightarrow> real list \<Rightarrow> nat \<Rightarrow> nat \<Rightarrow> real \<Rightarrow> (nat \<Rightarrow> 'm Info \<Rightarrow> real list) \<Rightarrow> bool \<Rightarrow>
   pool_state \<times> (error + ndarray)" where
  "HomeRangeCalibrator mov vels nszs tpw nw rng task interrupted =
     calculate_hr_info (HomeRangeCalibrator_init mov vels nszs tpw nw rng) task interrupted"

subsection \<open>ollin: occupancy calibrator\<close>

text \<open>The keys of \<^verbatim>\<open>self.config\<close> that \<^verbatim>\<open>calculate_oc_info\<close> and \<^verbatim>\<open>fit\<close> read.\<close>

record config =
  cfg_trials_per_world :: nat
  cfg_max_individuals :: nat
  cfg_niche_sizes :: "real list"
  cfg_home_ranges :: "real list"
  cfg_num_worlds :: nat
  cfg_nums :: "nat list"
  cfg_season :: nat
  cfg_range :: "real \<times> real"

text \<open>
  \<^verbatim>\<open>_get_single_oc_info\<close> (ollin/calibration/occupancy.py, lines 402 to 429): an array of
  shape \<^verbatim>\<open>[n_nums, trials]\<close> whose entry \<open>[n, k]\<close> is the occupancy of the \<open>k\<close>-th
  sample of \<^verbatim>\<open>nums[n]\<close> individuals. The site, the simulation, the sampling and the
  occupancy estimate are external: \<open>occupancy args n num k\<close> is their outcome.
\<close>

definition get_single_oc_info ::
  "(real \<times> real \<Rightarrow> nat \<Rightarrow> nat \<Rightarrow> nat \<Rightarrow> real) \<Rightarrow> real \<times> real \<Rightarrow> nat \<Rightarrow> nat list \<Rightarrow> ndarray" where
  "get_single_oc_info occupancy args trials nums =
     (let n_nums = length nums
      in \<lparr>shape = [n_nums, trials],
          elems = \<lambda>ix. if length ix = 2 \<and> ix ! 0 < n_nums \<and> ix ! 1 < trials
                       then occupancy args (ix ! 0) (nums ! (ix ! 0)) (ix ! 1) else 0\<rparr>)"

text \<open>
  \<^verbatim>\<open>all_info[i, j, :, k, :] = res\<close> on a five-dimensional array, for the two-dimensional
  \<^verbatim>\<open>res\<close> of \<^verbatim>\<open>_get_single_oc_info\<close>: each axis of \<^verbatim>\<open>res\<close> has the length of the
  target's axis, or length 1.
\<close>

definition set_slab :: "ndarray \<Rightarrow> idx3 \<Rightarrow> ndarray \<Rightarrow> error + ndarray" where
  "set_slab all_info ijk res =
     (let shp = shape all_info; i = fst ijk; j = fst (snd ijk); k = snd (snd ijk)
      in if length shp \<noteq> 5 \<or> \<not> (i < shp ! 0 \<and> j < shp ! 1 \<and> k < shp ! 3) then Inl IndexError
         else if length (shape res) \<noteq> 2
                 \<or> \<not> (shape res ! 0 = shp ! 2 \<or> shape res ! 0 = 1)
                 \<or> \<not> (shape res ! 1 = shp ! 4 \<or> shape res ! 1 = 1) then Inl ValueError
         else Inr (all_info\<lparr>elems :=
                \<lambda>ix. if length ix = 5 \<and> ix ! 0 = i \<and> ix ! 1 = j \<and> ix ! 3 = k
                        \<and> ix ! 2 < shp ! 2 \<and> ix ! 4 < shp ! 4
                     then elems res [if shape res ! 0 = 1 then 0 else ix ! 2,
                                     if shape res ! 1 = 1 then 0 else ix ! 4]
                     else elems all_info ix\<rparr>))"

text \<open>
  \<^verbatim>\<open>calculate_oc_info\<close> (ollin/calibration/occupancy.py, lines 79 to 148).
  \<open>simulate n\<close> is the external simulation behind the task submitted at position \<open>n\<close>,
  with the model, range, season and \<^verbatim>\<open>max_individuals\<close> the harness passes to every task.
\<close>

definition calculate_oc_info ::
  "config \<Rightarrow> (nat \<Rightarrow> real \<times> real \<Rightarrow> nat \<Rightarrow> nat \<Rightarrow> nat \<Rightarrow> real) \<Rightarrow> bool \<Rightarrow>
   pool_state \<times> (error + ndarray)" where
  "calculate_oc_info cfg simulate interrupted =
     (let trials_per_world' = cfg_trials_per_world cfg;
          niche_sizes' = cfg_niche_sizes cfg;
          home_ranges = cfg_home_ranges cfg;
          num_worlds' = cfg_num_worlds cfg;
          individuals = cfg_nums cfg;
          num_niches = length niche_sizes';
          num_home_ranges = length home_ranges;
          num_densities = length individuals;
          all_info = np_zeros [num_home_ranges, num_niches, num_densities, num_worlds',
                               trials_per_world'];
          arguments =
            [(home_range, niche_size).
               home_range \<leftarrow> home_ranges, niche_size \<leftarrow> niche_sizes', k \<leftarrow> [0..<num_worlds']]
      in case pool_map (\<lambda>n args. get_single_oc_info (simulate n) args trials_per_world' individuals)
              arguments interrupted of
           Inl e \<Rightarrow> if e = KeyboardInterrupt then (Terminated, Inl KeyboardInterrupt)
                    else (Running, Inl e)
         | Inr results \<Rightarrow>
             (Closed,
              store set_slab all_info
                (zip [(i, j, k). i \<leftarrow> [0..<num_home_ranges], j \<leftarrow> [0..<num_niches],
                                 k \<leftarrow> [0..<num_worlds']]
                   results)))"

subsection \<open>ollin: the regression data of \<^verbatim>\<open>fit\<close>\<close>

text \<open>
  numpy's float arithmetic does not raise: a division by zero and a logarithm of zero give an
  infinity, an undefined operation gives NaN. The values \<^verbatim>\<open>fit\<close> computes:
\<close>

datatype npfloat = Finite real | PosInf | NegInf | NaN

definition np_divide :: "real \<Rightarrow> real \<Rightarrow> npfloat" where
  "np_divide x y =
     (if y \<noteq> 0 then Finite (x / y)
      else if 0 < x then PosInf else if x < 0 then NegInf else NaN)"

fun np_sub1 :: "npfloat \<Rightarrow> npfloat" where
  "np_sub1 (Finite t) = Finite (t - 1)"
| "np_sub1 PosInf = PosInf"
| "np_sub1 NegInf = NegInf"
| "np_sub1 NaN = NaN"

fun np_log :: "npfloat \<Rightarrow> npfloat" where
  "np_log (Finite t) = (if t = 0 then NegInf else if t < 0 then NaN else Finite (ln t))"
| "np_log PosInf = PosInf"
| "np_log NegInf = NaN"
| "np_log NaN = NaN"

fun np_neg :: "npfloat \<Rightarrow> npfloat" where
  "np_neg (Finite t) = Finite (- t)"
| "np_neg PosInf = NegInf"
| "np_neg NegInf = PosInf"
| "np_neg NaN = NaN"

fun is_finite :: "npfloat \<Rightarrow> bool" where
  "is_finite (Finite t) = True"
| "is_finite PosInf = False"
| "is_finite NegInf = False"
| "is_finite NaN = False"

text \<open>
  Modelled from the spec: the \<^verbatim>\<open>logit\<close> that \<^verbatim>\<open>fit\<close> imports from
  ollin/core/utils.py, a file that is not among the sources. The specification gives
  \<^verbatim>\<open>logit(y) = -ln(1/y - 1)\<close> and says that it diverges to minus and plus infinity at
  occupancy 0 and 1; the function is applied to a numpy array, so the formula is read in
  numpy's arithmetic, element by element. (The \<^verbatim>\<open>logit\<close> of pycamtrap/core/utils.py,
  which is among the sources, has this body: \<^verbatim>\<open>-np.log((1/y) - 1)\<close>.)
\<close>

definition np_logit :: "real \<Rightarrow> npfloat" where
  "np_logit y = np_neg (np_log (np_sub1 (np_divide 1 y)))"

text \<open>
  \<^verbatim>\<open>fit\<close> (ollin/calibration/occupancy.py, lines 358 to 384) up to the call of the
  external \<^verbatim>\<open>LinearRegression().fit(X, Y)\<close>: the rows of \<open>X\<close> and the entries of \<open>Y\<close>.
  The imported \<^verbatim>\<open>logit\<close> is the parameter \<open>logit'\<close>.
  \<^verbatim>\<open>data[j, i, k, :, :].ravel()\<close> lists the last two axes row by row;
  \<^verbatim>\<open>self.occupancy_info\<close> is five-dimensional. The lists \<^verbatim>\<open>X\<close> and \<^verbatim>\<open>Y\<close>
  get one array per cell of the three loops; when a swept axis is empty the loops append
  nothing and \<^verbatim>\<open>np.concatenate(X, 0)\<close> raises ValueError. An index outside
  \<^verbatim>\<open>data\<close> raises inside the loops, hence before.
\<close>

definition ravel_cell :: "ndarray \<Rightarrow> nat \<Rightarrow> nat \<Rightarrow> nat \<Rightarrow> real list" where
  "ravel_cell data j i k =
     [elems data [j, i, k, l, m]. l \<leftarrow> [0..<shape data ! 3], m \<leftarrow> [0..<shape data ! 4]]"

definition fit_XY ::
  "(real \<Rightarrow> npfloat) \<Rightarrow> config \<Rightarrow> ndarray \<Rightarrow> error + (npfloat list list \<times> npfloat list)" where
  "fit_XY logit' cfg data =
     (let home_ranges = cfg_home_ranges cfg;
          niche_sizes' = cfg_niche_sizes cfg;
          nums = cfg_nums cfg;
          area = fst (cfg_range cfg) * snd (cfg_range cfg);
          density = map (\<lambda>n. np_divide (real n) area) nums;
          hr_proportions = map (\<lambda>h. np_divide h area) home_ranges;
          cells = [(i, j, k). i \<leftarrow> [0..<length niche_sizes'], j \<leftarrow> [0..<length hr_proportions],
                              k \<leftarrow> [0..<length density]]
      in if cells = [] then Inl ValueError
         else if length (shape data) \<noteq> 5
            \<or> \<not> list_all (\<lambda>(i, j, k). j < shape data ! 0 \<and> i < shape data ! 1 \<and> k < shape data ! 2)
                  cells
         then Inl IndexError
         else Inr
           (concat (map (\<lambda>(i, j, k). map (\<lambda>oc. [np_log (hr_proportions ! j), np_log (density ! k),
                                                  np_log (Finite (niche_sizes' ! i))])
                                          (ravel_cell data j i k)) cells),
            concat (map (\<lambda>(i, j, k). map logit' (ravel_cell data j i k)) cells)))"

section \<open>Properties\<close>

lemma py_mod_bounds: "0 < m \<Longrightarrow> 0 \<le> py_mod x m \<and> py_mod x m < m"
proof -
  assume m: "0 < m"
  have lo: "of_int \<lfloor>x / m\<rfloor> \<le> x / m" by (rule of_int_floor_le)
  have hi: "x / m < of_int \<lfloor>x / m\<rfloor> + 1" by linarith
  from m have eq: "m * (x / m) = x" by simp
  from m have m0: "0 \<le> m" by simp
  have "m * of_int \<lfloor>x / m\<rfloor> \<le> m * (x / m)"
    using lo m0 by (rule mult_left_mono)
  moreover have "m * (x / m) < m * (of_int \<lfloor>x / m\<rfloor> + 1)"
    using hi m by (rule mult_strict_left_mono)
  ultimately show ?thesis
    unfolding eq by (simp add: py_mod_def algebra_simps)
qed

lemma py_mod_id: "0 \<le> x \<Longrightarrow> x < m \<Longrightarrow> py_mod x m = x"
proof -
  assume x: "0 \<le> x" "x < m"
  then have "0 \<le> x / m" "x / m < 1" by simp_all
  then have "\<lfloor>x / m\<rfloor> = 0" by linarith
  then show ?thesis by (simp add: py_mod_def)
qed

lemma py_mod_neg: "0 < x \<Longrightarrow> x < m \<Longrightarrow> py_mod (- x) m = m - x"
proof -
  assume x: "0 < x" "x < m"
  then have "- 1 \<le> (- x) / m" "(- x) / m < 0" by (simp_all add: field_simps)
  then have "\<lfloor>(- x) / m\<rfloor> = - 1" by linarith
  then show ?thesis by (simp add: py_mod_def)
qed

lemma py_mod_shift: "m \<noteq> 0 \<Longrightarrow> py_mod (x + m) m = py_mod x m"
proof -
  assume m: "m \<noteq> 0"
  then have "(x + m) / m = x / m + 1" by (simp add: field_simps)
  then have "\<lfloor>(x + m) / m\<rfloor> = \<lfloor>x / m\<rfloor> + 1" by simp
  then show ?thesis by (simp add: py_mod_def algebra_simps)
qed

lemma reflect_id: "0 \<le> x \<Longrightarrow> x < r \<Longrightarrow> reflect r x = x"
  by (simp add: reflect_def Let_def py_mod_id)

text \<open>
  C10: over exact reals the two link functions are mutual inverses: sigmoid (logit y) = y
  for every y strictly between 0 and 1, and logit (sigmoid x) = x for every real x.
\<close>

theorem sigmoid_logit_inverse:
  "(\<forall>y. 0 < y \<and> y < 1 \<longrightarrow> sigmoid (logit y) = y) \<and> (\<forall>x. logit (sigmoid x) = x)"
proof (intro conjI allI impI)
  fix y :: real
  assume y: "0 < y \<and> y < 1"
  then have pos: "0 < 1 / y - 1" by (simp add: field_simps)
  then have "exp (- logit y) = 1 / y - 1" by (simp add: logit_def)
  then have "sigmoid (logit y) = 1 / (1 + (1 / y - 1))" by (simp add: sigmoid_def)
  also from y have "\<dots> = y" by simp
  finally show "sigmoid (logit y) = y" .
next
  fix x :: real
  have "1 / sigmoid x - 1 = exp (- x)" by (simp add: sigmoid_def)
  then show "logit (sigmoid x) = x" by (simp add: logit_def)
qed

theorem sigmoid_logit_inverse_witness:
  "(0::real) < 1 / 2 \<and> (1::real) / 2 < 1 \<and> sigmoid (logit (1 / 2)) = 1 / 2"
  using sigmoid_logit_inverse by simp

lemma reflect_range: "0 < r \<Longrightarrow> 0 \<le> reflect r x \<and> reflect r x < r"
  by (simp add: reflect_def Let_def py_mod_bounds)

lemma reflect_far_edge:
  assumes "r < x" "x < 2 * r"
  shows "reflect r x = 2 * r - x"
proof -
  from assms have r: "0 < r" by simp
  from assms have t: "py_mod x (2 * r) = x" by (simp add: py_mod_id)
  from assms have d: "0 < x - r" "x - r < r" by simp_all
  have "py_mod (- (x - r)) r = py_mod (- x) r"
    using r py_mod_shift [of r "- x"] by simp
  moreover have "py_mod (- (x - r)) r = r - (x - r)"
    using d by (rule py_mod_neg)
  ultimately have "py_mod (- x) r = 2 * r - x" by simp
  with t assms show ?thesis by (simp add: reflect_def Let_def)
qed

lemma reflect_rule:
  assumes "0 < r"
  shows "reflect r x = (let t = py_mod x (2 * r) in if t < r then t else py_mod (- t) r)"
proof -
  from assms have "0 \<le> py_mod x (2 * r)" by (simp add: py_mod_bounds)
  then show ?thesis by (simp add: reflect_def Let_def py_mod_id)
qed

text \<open>
  C2: for every real coordinate and every positive extent, the boundary rule (t = x mod 2r,
  then t when t < r and (-t) mod r otherwise) gives a value in [0, r), leaves every x of
  [0, r) unchanged and sends every x strictly between r and 2r to 2r - x; the two axes are
  mapped independently, each with its own extent.
\<close>

theorem boundary_rule:
  assumes "0 < rx" "0 < ry"
  shows "boundary (rx, ry) (x, y) = (reflect rx x, reflect ry y)
       \<and> reflect rx x = (let t = py_mod x (2 * rx) in if t < rx then t else py_mod (- t) rx)
       \<and> reflect ry y = (let t = py_mod y (2 * ry) in if t < ry then t else py_mod (- t) ry)
       \<and> (0 \<le> reflect rx x \<and> reflect rx x < rx) \<and> (0 \<le> reflect ry y \<and> reflect ry y < ry)
       \<and> (0 \<le> x \<and> x < rx \<longrightarrow> reflect rx x = x) \<and> (0 \<le> y \<and> y < ry \<longrightarrow> reflect ry y = y)
       \<and> (rx < x \<and> x < 2 * rx \<longrightarrow> reflect rx x = 2 * rx - x)
       \<and> (ry < y \<and> y < 2 * ry \<longrightarrow> reflect ry y = 2 * ry - y)"
proof -
  have pair: "boundary (rx, ry) (x, y) = (reflect rx x, reflect ry y)"
    by (simp add: boundary_def)
  note rule_x = reflect_rule [OF assms(1), of x] and rule_y = reflect_rule [OF assms(2), of y]
  note in_x = reflect_range [OF assms(1), of x, THEN conjunct1]
    reflect_range [OF assms(1), of x, THEN conjunct2]
  note in_y = reflect_range [OF assms(2), of y, THEN conjunct1]
    reflect_range [OF assms(2), of y, THEN conjunct2]
  have id_x: "0 \<le> x \<and> x < rx \<longrightarrow> reflect rx x = x"
    and id_y: "0 \<le> y \<and> y < ry \<longrightarrow> reflect ry y = y"
    by (simp_all add: reflect_id)
  have far_x: "rx < x \<and> x < 2 * rx \<longrightarrow> reflect rx x = 2 * rx - x"
    and far_y: "ry < y \<and> y < 2 * ry \<longrightarrow> reflect ry y = 2 * ry - y"
    by (simp_all add: reflect_far_edge)
  from pair rule_x rule_y in_x in_y id_x id_y far_x far_y show ?thesis
    by (intro conjI) assumption+
qed

theorem boundary_rule_witness:
  "boundary (20, 10) (25, 3) = (15, 3) \<and> boundary (20, 10) (- 4, 47) = (4, 7)"
proof -
  have a: "reflect 20 25 = 15" "reflect 10 3 = 3"
    using boundary_rule [of 20 10 25 3] by simp_all
  have "py_mod (- 4) 40 = 36"
    using py_mod_shift [of 40 "- 4"] by (simp add: py_mod_id)
  then have b: "reflect 20 (- 4) = py_mod (- 36) 20"
    using boundary_rule [of 20 10 "- 4" 47] by simp
  have c: "py_mod (- 36) 20 = 4"
    using py_mod_shift [of 20 "- 36"] py_mod_neg [of 16 20] by simp
  have "py_mod 47 20 = 7"
    using py_mod_shift [of 20 7] py_mod_shift [of 20 27] by (simp add: py_mod_id)
  then have d: "reflect 10 47 = 7"
    using boundary_rule [of 20 10 "- 4" 47] by (simp add: py_mod_id)
  from a b c d show ?thesis by (simp add: boundary_def)
qed

text \<open>
  C8: for every suitability value v in [0, 1] and every uniform draw u in [0, 1) the
  exponent 1.1 + 0.9 v is strictly greater than 1 and the divisor
  (1 - u)^(1 / exponent) * exponent of the magnitude formula is strictly positive, so the
  division of the magnitude formula needs no guard.
\<close>

theorem exponent_above_one:
  assumes "0 \<le> v" "v \<le> 1" "0 \<le> u" "u < 1"
  shows "1 < exponent_of v
       \<and> 0 < divisor (exponent_of v) u
       \<and> magnitude velocity (exponent_of v) u =
           velocity * (exponent_of v - 1)
             / ((1 - u) powr (1 / exponent_of v) * exponent_of v)"
proof -
  from assms have e: "1 < exponent_of v" by (simp add: exponent_of_def)
  from assms have "0 < (1 - u) powr (1 / exponent_of v)" by simp
  with e have "0 < divisor (exponent_of v) u" by (simp add: divisor_def)
  with e show ?thesis by (simp add: magnitude_def divisor_def)
qed

theorem exponent_above_one_witness:
  "1 < exponent_of 0 \<and> 0 < divisor (exponent_of 0) 0 \<and> magnitude 2 (exponent_of 1) 0 = 1"
proof -
  have a: "1 < exponent_of 0 \<and> 0 < divisor (exponent_of 0) 0"
    using exponent_above_one [of 0 0 0] by simp
  have "magnitude 2 (exponent_of 1) 0 = 1"
    using exponent_above_one [of 1 0 2] by (simp add: exponent_of_def)
  with a show ?thesis by simp
qed

text \<open>
  C3, as stated: the standard deviation of the constant-brownian displacement would be
  w / sqrt (2 / pi). At w = 1 the code's value differs.
\<close>

theorem sigma_counterexample: "sigma_of 1 \<noteq> 1 / sqrt (2 / pi)"
proof -
  have "2 / pi \<le> 1" using pi_ge_two by simp
  then have "sqrt (2 / pi) \<le> 1" by simp
  moreover have "0 < sqrt (2 / pi)" by simp
  ultimately have "1 \<le> 1 / sqrt (2 / pi)" by simp
  moreover have "sigma_of 1 < 1" by (simp add: sigma_of_def)
  ultimately show ?thesis by linarith
qed

text \<open>
  C3, amended: each displacement component is the standard normal draw scaled by
  sigma = w / 1.2533141373155003: the velocity is divided by the constant 1.2533..., so
  for w > 0 sigma lies between 0.7978 w and 0.7979 w, below w / sqrt (2 / pi).
\<close>

theorem sigma_value:
  "brownian_direction w (zx, zy) = (sigma_of w * zx, sigma_of w * zy)
   \<and> sigma_of w * 1.2533141373155003 = w
   \<and> (0 < w \<longrightarrow> 0.7978 * w < sigma_of w \<and> sigma_of w < 0.7979 * w
                \<and> sigma_of w < w / sqrt (2 / pi))"
proof -
  have "2 / pi \<le> 1" using pi_ge_two by simp
  then have "sqrt (2 / pi) \<le> 1" by simp
  moreover have "0 < sqrt (2 / pi)" by simp
  ultimately have inv: "1 \<le> 1 / sqrt (2 / pi)" by simp
  have up: "0 < w \<longrightarrow> sigma_of w < w / sqrt (2 / pi)"
  proof
    assume w: "0 < w"
    then have "sigma_of w < w" by (simp add: sigma_of_def)
    moreover from w inv have "w * 1 \<le> w * (1 / sqrt (2 / pi))"
      by (intro mult_left_mono) simp_all
    ultimately show "sigma_of w < w / sqrt (2 / pi)" by simp
  qed
  have "0 < w \<longrightarrow> 0.7978 * w < sigma_of w \<and> sigma_of w < 0.7979 * w"
    by (simp add: sigma_of_def field_simps)
  with up show ?thesis by (simp add: brownian_direction_def sigma_of_def)
qed

theorem sigma_value_witness:
  "(0::real) < 1 \<and> 0.7978 < sigma_of 1 \<and> sigma_of 1 < 0.7979
   \<and> brownian_direction 1 (2, 0) = (2 * sigma_of 1, 0)"
  using sigma_value [of 1 2 0] by simp

lemma grid_index_floor: "grid_index p resolution = \<lfloor>p / resolution\<rfloor>"
  by (simp add: grid_index_def floor_div_def int_cast_def)

lemma grid_index_range:
  assumes "0 < resolution" "0 \<le> p" "p < r" "r \<le> resolution * real n"
  shows "0 \<le> grid_index p resolution \<and> grid_index p resolution < int n"
proof -
  from assms have "0 \<le> p / resolution" by simp
  then have lo: "0 \<le> \<lfloor>p / resolution\<rfloor>" by simp
  from assms have "p < resolution * real n" by simp
  with assms(1) have "p / resolution < real n"
    by (simp add: field_simps)
  then have "\<lfloor>p / resolution\<rfloor> < int n" by (simp add: floor_less_iff)
  with lo show ?thesis by (simp add: grid_index_floor)
qed

text \<open>
  C7, as stated: every heatmap grid and positive resolution would give an in-bounds index
  for a position inside the habitat. A one-cell grid at resolution 1 in a habitat of extent 20
  does not, at the position (5, 5).
\<close>

theorem index_counterexample:
  "(0::real) < 1 \<and> (0::real) \<le> 5 \<and> (5::real) < 20
   \<and> \<not> in_bounds [[1]] (grid_index 5 1, grid_index 5 1)
   \<and> heatmap_at [[1]] (grid_index 5 1) (grid_index 5 1) = Inl IndexError"
  by (simp add: grid_index_floor in_bounds_def heatmap_at_def wrap_index_def)

text \<open>
  C7, amended: for a position in [0, range) on both axes and a positive resolution, the
  index is in bounds, and the lookup returns the cell's value, whenever the grid covers the
  habitat: the number of rows times the resolution, and the length of every row times the
  resolution, are at least the range. The code casts the index and does not clamp it.
\<close>

theorem index_in_bounds:
  assumes "0 < resolution" "0 \<le> x" "x < r" "0 \<le> y" "y < r"
    and "r \<le> resolution * real (length heatmap)"
    and "\<forall>row \<in> set heatmap. r \<le> resolution * real (length row)"
  shows "in_bounds heatmap (grid_index x resolution, grid_index y resolution)
       \<and> heatmap_at heatmap (grid_index x resolution) (grid_index y resolution) =
           Inr (heatmap ! nat (grid_index x resolution) ! nat (grid_index y resolution))"
proof -
  from assms have i: "0 \<le> grid_index x resolution"
      "grid_index x resolution < int (length heatmap)"
    using grid_index_range [of resolution x r "length heatmap"] by simp_all
  then have "heatmap ! nat (grid_index x resolution) \<in> set heatmap" by simp
  with assms have "r \<le> resolution * real (length (heatmap ! nat (grid_index x resolution)))"
    by blast
  with assms have j: "0 \<le> grid_index y resolution"
      "grid_index y resolution < int (length (heatmap ! nat (grid_index x resolution)))"
    using grid_index_range [of resolution y r "length (heatmap ! nat (grid_index x resolution))"]
    by simp_all
  from i j show ?thesis
    by (simp add: in_bounds_def heatmap_at_def wrap_index_def Let_def)
qed

theorem index_in_bounds_witness:
  "in_bounds [[0, 1, 0], [1, 1, 0], [0, 0, 1]] (grid_index 15 10, grid_index 25 10)
   \<and> heatmap_at [[0, 1, 0], [1, 1, 0], [0, 0, 1]] (grid_index 15 10) (grid_index 25 10) = Inr 0"
  using index_in_bounds [of 10 15 30 25 "[[0, 1, 0], [1, 1, 0], [0, 0, 1]]"]
  by (simp add: grid_index_floor)

lemma magnitude_zero: "magnitude 0 e u = 0"
  by (simp add: magnitude_def)

lemma boundary_id:
  "0 \<le> fst p \<Longrightarrow> fst p < rx \<Longrightarrow> 0 \<le> snd p \<Longrightarrow> snd p < ry \<Longrightarrow> boundary (rx, ry) p = p"
  by (simp add: boundary_def reflect_id)

lemma move_one_still:
  assumes "0 \<le> fst p" "fst p < r" "0 \<le> snd p" "snd p < r"
    and "move_one heatmap resolution 0 r angle u p = Inr p'"
  shows "p' = p"
  using assms
  by (auto simp: move_one_def Let_def magnitude_zero boundary_id
      split: if_splits sum.splits)

lemma move_one_total:
  assumes "0 \<le> fst p" "fst p < r" "0 \<le> snd p" "snd p < r" "resolution \<noteq> 0"
    and "heatmap_at heatmap (grid_index (fst p) resolution) (grid_index (snd p) resolution) = Inr v"
    and "exponent_of v \<noteq> 0"
  shows "move_one heatmap resolution 0 r angle u p = Inr p"
  using assms by (auto simp: move_one_def Let_def magnitude_zero boundary_id)

lemma brownian_one_still:
  assumes "0 \<le> fst p" "fst p < rx" "0 \<le> snd p" "snd p < ry"
  shows "brownian_one 0 (rx, ry) z p = Inr p"
  using assms
  by (auto simp: brownian_one_def brownian_direction_def sigma_of_def Let_def boundary_id)

lemma move_all_fixed:
  "(\<And>j p. p \<in> set ps \<Longrightarrow> f j p = Inr p) \<Longrightarrow> move_all f j ps = Inr ps"
  by (induction ps arbitrary: j) simp_all

lemma move_all_still:
  "(\<And>j p p'. p \<in> set ps \<Longrightarrow> f j p = Inr p' \<Longrightarrow> p' = p) \<Longrightarrow>
   move_all f j ps = Inr ps' \<Longrightarrow> ps' = ps"
proof (induction ps arbitrary: j ps')
  case Nil
  then show ?case by simp
next
  case (Cons p ps)
  from Cons.prems(2) obtain q qs where q: "f j p = Inr q"
    and qs: "move_all f (Suc j) ps = Inr qs" and eq: "ps' = q # qs"
    by (auto split: sum.splits)
  from q Cons.prems(1) have "q = p" by simp
  moreover from qs Cons.prems(1) have "qs = ps"
    by (intro Cons.IH) auto
  ultimately show ?case using eq by simp
qed

lemma run_steps_fixed:
  "(\<And>k. upd k ps = Inr ps) \<Longrightarrow> run_steps upd k n ps = Inr (replicate n ps)"
  by (induction n arbitrary: k) simp_all

lemma run_steps_still:
  "(\<And>k ps'. upd k ps = Inr ps' \<Longrightarrow> ps' = ps) \<Longrightarrow>
   run_steps upd k n ps = Inr snapshots \<Longrightarrow> snapshots = replicate n ps"
proof (induction n arbitrary: k snapshots)
  case 0
  then show ?case by simp
next
  case (Suc n)
  from Suc.prems(2) obtain ps' rest where u: "upd k ps = Inr ps'"
    and r: "run_steps upd (Suc k) n ps' = Inr rest" and eq: "snapshots = ps # rest"
    by (auto split: sum.splits)
  from u Suc.prems(1) have "ps' = ps" by simp
  with r Suc.prems(1) have "rest = replicate n ps"
    by (intro Suc.IH) auto
  with eq show ?case by simp
qed

lemma trajectory_replicate:
  "j < num \<Longrightarrow> k < n \<Longrightarrow> trajectory num (replicate n ps) ! j ! k = ps ! j"
  by (simp add: trajectory_def)

text \<open>
  C9: with velocity 0 and initial positions in [0, range) on both axes, every recorded
  position of the trajectory the kernel produces is the individual's initial position, for
  every heatmap and for both variants. The heatmap-weighted kernel produces a trajectory
  whenever the lookup at each initial position is defined and gives a nonzero exponent; the
  constant-brownian kernel always does.
\<close>

theorem zero_velocity_constant:
  assumes "\<forall>p \<in> set ps. 0 \<le> fst p \<and> fst p < r \<and> 0 \<le> snd p \<and> snd p < r"
    and "\<forall>p \<in> set qs. 0 \<le> fst p \<and> fst p < rx \<and> 0 \<le> snd p \<and> snd p < ry"
  shows "(\<forall>traj. movement heatmap ps resolution num 0 r days steps_per_day angles rand = Inr traj
            \<longrightarrow> (\<forall>j<num. \<forall>k<days * steps_per_day. traj ! j ! k = ps ! j))
       \<and> (resolution \<noteq> 0 \<and> steps_per_day \<noteq> 0 \<and> num = length ps
          \<and> (\<forall>p \<in> set ps. \<exists>v. heatmap_at heatmap (grid_index (fst p) resolution)
                                   (grid_index (snd p) resolution) = Inr v
                                 \<and> exponent_of v \<noteq> 0)
            \<longrightarrow> (\<exists>traj. movement heatmap ps resolution num 0 r days steps_per_day angles rand
                          = Inr traj))
       \<and> (\<exists>traj. Model_movement qs 0 (rx, ry) steps normal = Inr traj
             \<and> (\<forall>j<length qs. \<forall>k<steps. traj ! j ! k = qs ! j))"
proof (intro conjI allI impI)
  fix traj j k
  assume run: "movement heatmap ps resolution num 0 r days steps_per_day angles rand = Inr traj"
    and j: "j < num" and k: "k < days * steps_per_day"
  let ?upd = "\<lambda>k ps. if length ps \<noteq> num then Inl ValueError
                      else move_all (\<lambda>j. move_one heatmap resolution 0 r (angles k j) (rand k j)) 0 ps"
  from run obtain snapshots where
    s: "run_steps ?upd 0 (days * steps_per_day) ps = Inr snapshots"
    and t: "traj = trajectory num snapshots"
    by (auto simp: movement_def Let_def split: if_splits sum.splits)
  have "\<And>k ps'. ?upd k ps = Inr ps' \<Longrightarrow> ps' = ps"
  proof -
    fix k ps'
    assume u: "?upd k ps = Inr ps'"
    then have "move_all (\<lambda>j. move_one heatmap resolution 0 r (angles k j) (rand k j)) 0 ps = Inr ps'"
      by (simp split: if_splits)
    then show "ps' = ps"
      using assms(1) by (elim move_all_still [rotated]) (auto dest: move_one_still [rotated 4])
  qed
  with s have "snapshots = replicate (days * steps_per_day) ps"
    by (rule run_steps_still [rotated])
  with t j k show "traj ! j ! k = ps ! j" by (simp add: trajectory_replicate)
next
  assume ok: "resolution \<noteq> 0 \<and> steps_per_day \<noteq> 0 \<and> num = length ps
          \<and> (\<forall>p \<in> set ps. \<exists>v. heatmap_at heatmap (grid_index (fst p) resolution)
                                   (grid_index (snd p) resolution) = Inr v
                                 \<and> exponent_of v \<noteq> 0)"
  have "\<And>k j p. p \<in> set ps \<Longrightarrow> move_one heatmap resolution 0 r (angles k j) (rand k j) p = Inr p"
    using ok assms(1) by (auto intro: move_one_total)
  then have "\<And>k. move_all (\<lambda>j. move_one heatmap resolution 0 r (angles k j) (rand k j)) 0 ps = Inr ps"
    by (intro move_all_fixed) simp
  with ok show "\<exists>traj. movement heatmap ps resolution num 0 r days steps_per_day angles rand = Inr traj"
    by (simp add: movement_def Let_def run_steps_fixed)
next
  have "\<And>k j p. p \<in> set qs \<Longrightarrow> brownian_one 0 (rx, ry) (normal k j) p = Inr p"
    using assms(2) by (auto intro: brownian_one_still)
  then have "\<And>k. move_all (\<lambda>j. brownian_one 0 (rx, ry) (normal k j)) 0 qs = Inr qs"
    by (intro move_all_fixed) simp
  then have "Model_movement qs 0 (rx, ry) steps normal = Inr (trajectory (length qs) (replicate steps qs))"
    by (simp add: Model_movement_def Let_def run_steps_fixed)
  then show "\<exists>traj. Model_movement qs 0 (rx, ry) steps normal = Inr traj
             \<and> (\<forall>j<length qs. \<forall>k<steps. traj ! j ! k = qs ! j)"
    by (simp add: trajectory_replicate)
qed

theorem zero_velocity_constant_witness:
  "(\<exists>traj. movement [[0, 1, 0], [1, 1, 0], [0, 0, 1]] [(3 / 2, 5 / 2)] 1 1 0 3 1 2
              (\<lambda>k j. 0) (\<lambda>k j. 0) = Inr traj
           \<and> traj ! 0 ! 1 = (3 / 2, 5 / 2))
   \<and> (\<exists>traj. Model_movement [(1, 1)] 0 (2, 3) 2 (\<lambda>k j. (1, 1)) = Inr traj
           \<and> traj ! 0 ! 1 = (1, 1))"
proof -
  let ?H = "[[0, 1, 0], [1, 1, 0], [0, 0, 1]] :: real list list"
  have a: "\<forall>p \<in> set [(3 / 2 :: real, 5 / 2 :: real)]. 0 \<le> fst p \<and> fst p < 3 \<and> 0 \<le> snd p \<and> snd p < 3"
    by simp
  have b: "\<forall>p \<in> set [(1 :: real, 1 :: real)]. 0 \<le> fst p \<and> fst p < 2 \<and> 0 \<le> snd p \<and> snd p < 3"
    by simp
  have look: "heatmap_at ?H (grid_index (3 / 2) 1) (grid_index (5 / 2) 1) = Inr 0"
    by (simp add: grid_index_floor heatmap_at_def wrap_index_def)
  note inst = zero_velocity_constant [OF a b, where heatmap = ?H and resolution = 1
      and num = 1 and days = 1 and steps_per_day = 2 and angles = "\<lambda>k j. 0"
      and rand = "\<lambda>k j. 0" and steps = 2 and normal = "\<lambda>k j. (1, 1)"]
  from inst look obtain traj where
    t: "movement ?H [(3 / 2, 5 / 2)] 1 1 0 3 1 2 (\<lambda>k j. 0) (\<lambda>k j. 0) = Inr traj"
    by (auto simp: exponent_of_def)
  with inst have "traj ! 0 ! 1 = (3 / 2, 5 / 2)" by simp
  with t inst show ?thesis by auto
qed

subsection \<open>Enumeration order of a three-fold comprehension\<close>

lemma concat_uniform_length:
  "(\<And>x. x \<in> set xs \<Longrightarrow> length (g x) = n) \<Longrightarrow> length (concat (map g xs)) = length xs * n"
  by (induction xs) simp_all

lemma concat_uniform_nth:
  assumes "\<And>x. x \<in> set xs \<Longrightarrow> length (g x) = n" "i < length xs" "r < n"
  shows "concat (map g xs) ! (i * n + r) = g (xs ! i) ! r"
  using assms
proof (induction xs arbitrary: i)
  case Nil
  then show ?case by simp
next
  case (Cons x xs)
  show ?case
  proof (cases i)
    case 0
    with Cons.prems show ?thesis by (simp add: nth_append)
  next
    case (Suc i')
    with Cons.prems have "concat (map g xs) ! (i' * n + r) = g (xs ! i') ! r"
      by (intro Cons.IH) simp_all
    with Suc Cons.prems show ?thesis by (simp add: nth_append)
  qed
qed

lemma offset_less:
  assumes "j < b" "k < (c::nat)"
  shows "j * c + k < b * c"
proof -
  from assms have "j * c + k < Suc j * c" by simp
  also from assms have "Suc j * c \<le> b * c" by (intro mult_le_mono1) simp
  finally show ?thesis .
qed

lemma grid_length:
  "length [f x y z. x \<leftarrow> xs, y \<leftarrow> ys, z \<leftarrow> zs] = length xs * (length ys * length zs)"
  by (simp add: concat_uniform_length)

lemma grid_nth:
  assumes "i < length xs" "j < length ys" "k < length zs"
  shows "[f x y z. x \<leftarrow> xs, y \<leftarrow> ys, z \<leftarrow> zs] ! ((i * length ys + j) * length zs + k)
         = f (xs ! i) (ys ! j) (zs ! k)"
proof -
  let ?inner = "\<lambda>x. concat (map (\<lambda>y. map (f x y) zs) ys)"
  have inner: "?inner (xs ! i) ! (j * length zs + k) = map (f (xs ! i) (ys ! j)) zs ! k"
    using assms by (intro concat_uniform_nth) simp_all
  have off: "j * length zs + k < length ys * length zs"
    using assms by (intro offset_less)
  have "concat (map ?inner xs) ! (i * (length ys * length zs) + (j * length zs + k))
      = ?inner (xs ! i) ! (j * length zs + k)"
    using assms off by (intro concat_uniform_nth) (simp_all add: concat_uniform_length)
  with inner assms show ?thesis by (simp add: algebra_simps)
qed

lemma grid_position_less:
  assumes "i < a" "j < b" "k < (c::nat)"
  shows "(i * b + j) * c + k < a * (b * c)"
proof -
  from assms have "j * c + k < b * c" by (intro offset_less)
  with assms have "i * (b * c) + (j * c + k) < a * (b * c)" by (intro offset_less)
  then show ?thesis by (simp add: algebra_simps)
qed

lemma grid_set:
  "(i, j, k) \<in> set [(i, j, k). i \<leftarrow> [0..<a], j \<leftarrow> [0..<b], k \<leftarrow> [0..<c]]
   \<longleftrightarrow> i < a \<and> j < b \<and> k < c"
  by (auto simp: image_iff)

lemma distinct_concat_map:
  "distinct xs \<Longrightarrow> (\<And>x. x \<in> set xs \<Longrightarrow> distinct (g x)) \<Longrightarrow>
   (\<And>x y. x \<in> set xs \<Longrightarrow> y \<in> set xs \<Longrightarrow> x \<noteq> y \<Longrightarrow> set (g x) \<inter> set (g y) = {}) \<Longrightarrow>
   distinct (concat (map g xs))"
  by (induction xs) auto

lemma grid_distinct:
  "distinct [(i, j, k). i \<leftarrow> [0..<a], j \<leftarrow> [0..<b], k \<leftarrow> [0..<c]]"
  by (intro distinct_concat_map) (auto simp: distinct_map inj_on_def)

lemma zip_by_position:
  "length xs = n \<Longrightarrow> zip xs (map f [0..<n]) = map (\<lambda>p. (xs ! p, f p)) [0..<n]"
  by (simp add: list_eq_iff_nth_eq)

lemma length4: "length ix = 4 \<Longrightarrow> ix = [ix ! 0, ix ! 1, ix ! 2, ix ! 3]"
  by (auto simp: list_eq_iff_nth_eq less_Suc_eq numeral_eq_Suc)

lemma length5: "length ix = 5 \<Longrightarrow> ix = [ix ! 0, ix ! 1, ix ! 2, ix ! 3, ix ! 4]"
  by (auto simp: list_eq_iff_nth_eq less_Suc_eq numeral_eq_Suc)

lemma fst_in_set: "(x, r) \<in> set ws \<Longrightarrow> x \<in> set (map fst ws)"
  by force

lemma positions_fst: "length xs = n \<Longrightarrow> map fst (map (\<lambda>p. (xs ! p, f p)) [0..<n]) = xs"
  by (simp add: list_eq_iff_nth_eq)

lemma positions_mem: "p < n \<Longrightarrow> (xs ! p, f p) \<in> set (map (\<lambda>p. (xs ! p, f p)) [0..<n])"
  by (auto simp: image_iff)

lemma positions_snd:
  "(x, r) \<in> set (map (\<lambda>p. (xs ! p, f p)) [0..<n]) \<Longrightarrow> \<exists>p<n. r = f p"
  by auto

lemma upt_grid_nth:
  assumes "i < a" "j < b" "k < c"
  shows "[f i j k. i \<leftarrow> [0..<a], j \<leftarrow> [0..<b], k \<leftarrow> [0..<c]] ! ((i * b + j) * c + k) = f i j k"
  using grid_nth [of i "[0..<a]" j "[0..<b]" k "[0..<c]" f] assms by simp

lemma values_grid_nth:
  assumes "i < length xs" "j < length ys" "k < c"
  shows "[f x y k. x \<leftarrow> xs, y \<leftarrow> ys, k \<leftarrow> [0..<c]] ! ((i * length ys + j) * c + k)
         = f (xs ! i) (ys ! j) k"
  using grid_nth [of i xs j ys k "[0..<c]" f] assms by simp

subsection \<open>Writing the results back\<close>

lemma store_cells:
  assumes put: "\<And>a x r. shape a = shp \<Longrightarrow> (x, r) \<in> set ws \<Longrightarrow>
            \<exists>a'. put a x r = Inr a' \<and> shape a' = shp \<and> (\<forall>c \<in> own x. elems a' c = val r c)
                 \<and> (\<forall>c. c \<notin> own x \<longrightarrow> elems a' c = elems a c)"
    and disj: "\<And>x y. x \<noteq> y \<Longrightarrow> own x \<inter> own y = {}"
    and dist: "distinct (map fst ws)" and shp: "shape a = shp"
  shows "\<exists>a'. store put a ws = Inr a' \<and> shape a' = shp
            \<and> (\<forall>x r c. (x, r) \<in> set ws \<longrightarrow> c \<in> own x \<longrightarrow> elems a' c = val r c)
            \<and> (\<forall>c. (\<forall>x r. (x, r) \<in> set ws \<longrightarrow> c \<notin> own x) \<longrightarrow> elems a' c = elems a c)"
  using assms
proof (induction ws arbitrary: a)
  case Nil
  then show ?case by simp
next
  case (Cons w ws)
  obtain x r where w: "w = (x, r)" by (cases w)
  have "(x, r) \<in> set (w # ws)" using w by simp
  from Cons.prems(1) [OF Cons.prems(4) this] obtain a1 where
    a1: "put a x r = Inr a1" "shape a1 = shp" "\<forall>c \<in> own x. elems a1 c = val r c"
      "\<forall>c. c \<notin> own x \<longrightarrow> elems a1 c = elems a c"
    by blast
  have put': "\<And>a x r. shape a = shp \<Longrightarrow> (x, r) \<in> set ws \<Longrightarrow>
            \<exists>a'. put a x r = Inr a' \<and> shape a' = shp \<and> (\<forall>c \<in> own x. elems a' c = val r c)
                 \<and> (\<forall>c. c \<notin> own x \<longrightarrow> elems a' c = elems a c)"
    using Cons.prems(1) by simp
  have dist': "distinct (map fst ws)" using Cons.prems(3) by simp
  from Cons.IH [OF put' Cons.prems(2) dist' a1(2)]
  obtain a' where a': "store put a1 ws = Inr a'" "shape a' = shp"
      "\<forall>x r c. (x, r) \<in> set ws \<longrightarrow> c \<in> own x \<longrightarrow> elems a' c = val r c"
      "\<forall>c. (\<forall>x r. (x, r) \<in> set ws \<longrightarrow> c \<notin> own x) \<longrightarrow> elems a' c = elems a1 c"
    by blast
  have fresh: "\<And>y s. (y, s) \<in> set ws \<Longrightarrow> y \<noteq> x"
    using Cons.prems(3) w by (auto simp: image_iff)
  have own_x: "\<And>c. c \<in> own x \<Longrightarrow> elems a' c = val r c"
  proof -
    fix c assume c: "c \<in> own x"
    have "\<forall>y s. (y, s) \<in> set ws \<longrightarrow> c \<notin> own y"
    proof (intro allI impI)
      fix y s assume "(y, s) \<in> set ws"
      then have "y \<noteq> x" by (rule fresh)
      then have "own y \<inter> own x = {}" by (rule Cons.prems(2))
      with c show "c \<notin> own y" by blast
    qed
    with a'(4) have "elems a' c = elems a1 c" by blast
    with a1(3) c show "elems a' c = val r c" by simp
  qed
  have cells: "\<forall>y s c. (y, s) \<in> set (w # ws) \<longrightarrow> c \<in> own y \<longrightarrow> elems a' c = val s c"
  proof (intro allI impI)
    fix y s c assume ys: "(y, s) \<in> set (w # ws)" and c: "c \<in> own y"
    show "elems a' c = val s c"
    proof (cases "(y, s) = (x, r)")
      case True
      with c own_x show ?thesis by simp
    next
      case False
      with ys w have "(y, s) \<in> set ws" by auto
      with a'(3) c show ?thesis by blast
    qed
  qed
  have frame: "\<forall>c. (\<forall>y s. (y, s) \<in> set (w # ws) \<longrightarrow> c \<notin> own y) \<longrightarrow> elems a' c = elems a c"
  proof (intro allI impI)
    fix c assume out: "\<forall>y s. (y, s) \<in> set (w # ws) \<longrightarrow> c \<notin> own y"
    have "(x, r) \<in> set (w # ws)" using w by simp
    with out have "c \<notin> own x" by blast
    with a1(4) have e1: "elems a1 c = elems a c" by simp
    have "\<And>y s. (y, s) \<in> set ws \<Longrightarrow> (y, s) \<in> set (w # ws)" by simp
    with out have "\<forall>y s. (y, s) \<in> set ws \<longrightarrow> c \<notin> own y" by blast
    with a'(4) have "elems a' c = elems a1 c" by blast
    with e1 show "elems a' c = elems a c" by simp
  qed
  from a1(1) a'(1) w have "store put a (w # ws) = Inr a'" by simp
  with a'(2) cells frame show ?case by blast
qed

lemma set_row_put:
  assumes "shape a = [d0, d1, d2, d3]" "i < d0" "j < d1" "k < d2" "length res = d3"
  shows "\<exists>a'. set_row a (i, j, k) res = Inr a' \<and> shape a' = [d0, d1, d2, d3]
           \<and> (\<forall>c \<in> {[i, j, k, m] |m. m < d3}. elems a' c = res ! (c ! 3))
           \<and> (\<forall>c. c \<notin> {[i, j, k, m] |m. m < d3} \<longrightarrow> elems a' c = elems a c)"
proof -
  let ?a' = "a\<lparr>elems :=
                \<lambda>ix. if length ix = 4 \<and> ix ! 0 = i \<and> ix ! 1 = j \<and> ix ! 2 = k \<and> ix ! 3 < d3
                     then res ! (if length res = 1 then 0 else ix ! 3)
                     else elems a ix\<rparr>"
  from assms have run: "set_row a (i, j, k) res = Inr ?a'"
    by (simp add: set_row_def Let_def)
  have inside: "\<forall>c \<in> {[i, j, k, m] |m. m < d3}. elems ?a' c = res ! (c ! 3)"
    using assms(5) by auto
  have outside: "\<forall>c. c \<notin> {[i, j, k, m] |m. m < d3} \<longrightarrow> elems ?a' c = elems a c"
  proof (intro allI impI)
    fix c assume c: "c \<notin> {[i, j, k, m] |m. m < d3}"
    have "\<not> (length c = 4 \<and> c ! 0 = i \<and> c ! 1 = j \<and> c ! 2 = k \<and> c ! 3 < d3)"
    proof
      assume h: "length c = 4 \<and> c ! 0 = i \<and> c ! 1 = j \<and> c ! 2 = k \<and> c ! 3 < d3"
      then have "c = [c ! 0, c ! 1, c ! 2, c ! 3]" by (intro length4) simp
      with h have "c = [i, j, k, c ! 3]" by simp
      with h c show False by blast
    qed
    then show "elems ?a' c = elems a c" by auto
  qed
  from run assms(1) inside outside show ?thesis by simp
qed

lemma harness_cells:
  assumes rows: "\<forall>n info. info_num info = trials_per_world self
                   \<longrightarrow> length (task n info) = trials_per_world self"
  shows "\<exists>t. calculate_velocity_info self task False = (Closed, Inr t)
           \<and> shape t = [length (velocities self), length (niche_sizes self), num_worlds self,
                        trials_per_world self]
           \<and> (\<forall>i j k m. i < length (velocities self) \<longrightarrow> j < length (niche_sizes self) \<longrightarrow>
                 k < num_worlds self \<longrightarrow> m < trials_per_world self \<longrightarrow>
                 elems t [i, j, k, m] =
                   task ((i * length (niche_sizes self) + j) * num_worlds self + k)
                     \<lparr>info_movement_model = movement_model self,
                      info_velocity = velocities self ! i,
                      info_niche_size = niche_sizes self ! j,
                      info_num = trials_per_world self,
                      info_range = range_km self\<rparr> ! m)"
proof -
  let ?a = "length (velocities self)" and ?b = "length (niche_sizes self)"
  let ?c = "num_worlds self" and ?d = "trials_per_world self"
  let ?mk = "\<lambda>vel nsz (k::nat). \<lparr>info_movement_model = movement_model self, info_velocity = vel,
      info_niche_size = nsz, info_num = ?d, info_range = range_km self\<rparr>"
  let ?args = "[?mk vel nsz k. vel \<leftarrow> velocities self, nsz \<leftarrow> niche_sizes self, k \<leftarrow> [0..<?c]]"
  let ?idxs = "[(i, j, k). i \<leftarrow> [0..<?a], j \<leftarrow> [0..<?b], k \<leftarrow> [0..<?c]]"
  let ?N = "?a * (?b * ?c)"
  let ?ws = "map (\<lambda>p. (?idxs ! p, task p (?args ! p))) [0..<?N]"
  let ?shp = "[?a, ?b, ?c, ?d]"
  let ?own = "\<lambda>x. {[fst x, fst (snd x), snd (snd x), m] |m. m < ?d}"
  let ?val = "\<lambda>(res :: real list) (c :: nat list). res ! (c ! 3)"
  have len_args: "length ?args = ?N" by (simp add: grid_length)
  have len_idxs: "length ?idxs = ?N" by (simp add: grid_length)
  have zipped: "zip ?idxs (map (\<lambda>p. task p (?args ! p)) [0..<?N]) = ?ws"
    using len_idxs by (rule zip_by_position)
  have run: "calculate_velocity_info self task False
      = (Closed, store set_row (np_zeros ?shp) ?ws)"
    unfolding calculate_velocity_info_def pool_map_def Let_def len_args
    by (simp only: if_False sum.case zipped)
  have nums: "\<forall>info \<in> set ?args. info_num info = ?d" by auto
  have fsts: "map fst ?ws = ?idxs"
    using len_idxs by (rule positions_fst)
  have dist: "distinct (map fst ?ws)"
    unfolding fsts by (rule grid_distinct)
  have put: "\<And>a x r. shape a = ?shp \<Longrightarrow> (x, r) \<in> set ?ws \<Longrightarrow>
      \<exists>a'. set_row a x r = Inr a' \<and> shape a' = ?shp \<and> (\<forall>c \<in> ?own x. elems a' c = ?val r c)
           \<and> (\<forall>c. c \<notin> ?own x \<longrightarrow> elems a' c = elems a c)"
  proof -
    fix a :: ndarray and x :: idx3 and r :: "real list"
    assume sh: "shape a = ?shp" and mem: "(x, r) \<in> set ?ws"
    obtain i j k where x: "x = (i, j, k)" by (cases x)
    from mem have "x \<in> set (map fst ?ws)" by (rule fst_in_set)
    then have "(i, j, k) \<in> set ?idxs" unfolding fsts x .
    then have b: "i < ?a" "j < ?b" "k < ?c" by (simp_all only: grid_set)
    from positions_snd [OF mem] obtain p where p: "p < ?N" "r = task p (?args ! p)" by blast
    from p(1) have "?args ! p \<in> set ?args" by (simp only: len_args [symmetric] nth_mem)
    then have "info_num (?args ! p) = ?d" using nums by blast
    with rows p(2) have l: "length r = ?d" by simp
    from set_row_put [OF sh b l] show "\<exists>a'. set_row a x r = Inr a' \<and> shape a' = ?shp
           \<and> (\<forall>c \<in> ?own x. elems a' c = ?val r c)
           \<and> (\<forall>c. c \<notin> ?own x \<longrightarrow> elems a' c = elems a c)"
      unfolding x by simp
  qed
  have disj: "\<And>x y. x \<noteq> y \<Longrightarrow> ?own x \<inter> ?own y = {}"
    by (auto simp: prod_eq_iff)
  have "shape (np_zeros ?shp) = ?shp" by (simp add: np_zeros_def)
  from store_cells [of ?shp ?ws set_row ?own ?val, OF put disj dist this]
  obtain t where tt: "store set_row (np_zeros ?shp) ?ws = Inr t \<and> shape t = ?shp
    \<and> (\<forall>x r c. (x, r) \<in> set ?ws \<longrightarrow> c \<in> ?own x \<longrightarrow> elems t c = ?val r c)
    \<and> (\<forall>c. (\<forall>x r. (x, r) \<in> set ?ws \<longrightarrow> c \<notin> ?own x) \<longrightarrow> elems t c = elems (np_zeros ?shp) c)" ..
  note t = tt [THEN conjunct1] tt [THEN conjunct2, THEN conjunct1]
    tt [THEN conjunct2, THEN conjunct2, THEN conjunct1]
  have cells: "\<forall>i j k m. i < ?a \<longrightarrow> j < ?b \<longrightarrow> k < ?c \<longrightarrow> m < ?d \<longrightarrow>
      elems t [i, j, k, m] = task ((i * ?b + j) * ?c + k) (?mk (velocities self ! i) (niche_sizes self ! j) k) ! m"
  proof (intro allI impI)
    fix i j k m
    assume b: "i < ?a" "j < ?b" "k < ?c" "m < ?d"
    let ?p = "(i * ?b + j) * ?c + k"
    from b have p: "?p < ?N" by (intro grid_position_less)
    have ix: "?idxs ! ?p = (i, j, k)"
      using b(1-3) by (rule upt_grid_nth)
    have ar: "?args ! ?p = ?mk (velocities self ! i) (niche_sizes self ! j) k"
      using b(1-3) by (rule values_grid_nth)
    from p have "(?idxs ! ?p, task ?p (?args ! ?p)) \<in> set ?ws" by (rule positions_mem)
    then have mem: "((i, j, k), task ?p (?mk (velocities self ! i) (niche_sizes self ! j) k)) \<in> set ?ws"
      unfolding ix ar .
    from b have own: "[i, j, k, m] \<in> ?own (i, j, k)" by simp
    from t(3) [rule_format, OF mem own]
    have "elems t [i, j, k, m] = ?val (task ?p (?mk (velocities self ! i) (niche_sizes self ! j) k)) [i, j, k, m]" .
    then show "elems t [i, j, k, m] = task ?p (?mk (velocities self ! i) (niche_sizes self ! j) k) ! m"
      by simp
  qed
  have "calculate_velocity_info self task False = (Closed, Inr t)"
    by (simp only: run t(1))
  with t(2) cells show ?thesis by (intro exI conjI)
qed

lemma hr_info_as_velocity_info: "calculate_hr_info self task b = calculate_velocity_info self task b"
  by (simp only: calculate_hr_info_def calculate_velocity_info_def)

lemma set_slab_put:
  assumes "shape a = [d0, d1, d2, d3, d4]" "i < d0" "j < d1" "k < d3" "shape res = [d2, d4]"
  shows "\<exists>a'. set_slab a (i, j, k) res = Inr a' \<and> shape a' = [d0, d1, d2, d3, d4]
           \<and> (\<forall>c \<in> {[i, j, l, k, m] |l m. l < d2 \<and> m < d4}. elems a' c = elems res [c ! 2, c ! 4])
           \<and> (\<forall>c. c \<notin> {[i, j, l, k, m] |l m. l < d2 \<and> m < d4} \<longrightarrow> elems a' c = elems a c)"
proof -
  let ?a' = "a\<lparr>elems :=
                \<lambda>ix. if length ix = 5 \<and> ix ! 0 = i \<and> ix ! 1 = j \<and> ix ! 3 = k
                        \<and> ix ! 2 < d2 \<and> ix ! 4 < d4
                     then elems res [if shape res ! 0 = 1 then 0 else ix ! 2,
                                     if shape res ! 1 = 1 then 0 else ix ! 4]
                     else elems a ix\<rparr>"
  from assms have run: "set_slab a (i, j, k) res = Inr ?a'"
    by (simp add: set_slab_def Let_def)
  have inside: "\<forall>c \<in> {[i, j, l, k, m] |l m. l < d2 \<and> m < d4}. elems ?a' c = elems res [c ! 2, c ! 4]"
    using assms(5) by auto
  have outside: "\<forall>c. c \<notin> {[i, j, l, k, m] |l m. l < d2 \<and> m < d4} \<longrightarrow> elems ?a' c = elems a c"
  proof (intro allI impI)
    fix c assume c: "c \<notin> {[i, j, l, k, m] |l m. l < d2 \<and> m < d4}"
    have "\<not> (length c = 5 \<and> c ! 0 = i \<and> c ! 1 = j \<and> c ! 3 = k \<and> c ! 2 < d2 \<and> c ! 4 < d4)"
    proof
      assume h: "length c = 5 \<and> c ! 0 = i \<and> c ! 1 = j \<and> c ! 3 = k \<and> c ! 2 < d2 \<and> c ! 4 < d4"
      then have "c = [c ! 0, c ! 1, c ! 2, c ! 3, c ! 4]" by (intro length5) simp
      with h have "c = [i, j, c ! 2, k, c ! 4]" by simp
      with h c show False by blast
    qed
    then show "elems ?a' c = elems a c" by auto
  qed
  from run assms(1) inside outside show ?thesis by simp
qed

lemma oc_cells:
  "\<exists>t. calculate_oc_info cfg simulate False = (Closed, Inr t)
      \<and> shape t = [length (cfg_home_ranges cfg), length (cfg_niche_sizes cfg),
                   length (cfg_nums cfg), cfg_num_worlds cfg, cfg_trials_per_world cfg]
      \<and> (\<forall>i j k l m. i < length (cfg_home_ranges cfg) \<longrightarrow> j < length (cfg_niche_sizes cfg) \<longrightarrow>
            k < cfg_num_worlds cfg \<longrightarrow> l < length (cfg_nums cfg) \<longrightarrow>
            m < cfg_trials_per_world cfg \<longrightarrow>
            elems t [i, j, l, k, m] =
              simulate ((i * length (cfg_niche_sizes cfg) + j) * cfg_num_worlds cfg + k)
                (cfg_home_ranges cfg ! i, cfg_niche_sizes cfg ! j) l (cfg_nums cfg ! l) m)"
proof -
  let ?a = "length (cfg_home_ranges cfg)" and ?b = "length (cfg_niche_sizes cfg)"
  let ?c = "cfg_num_worlds cfg" and ?d = "cfg_trials_per_world cfg"
  let ?e = "length (cfg_nums cfg)"
  let ?mk = "\<lambda>(home_range :: real) (niche_size :: real) (k :: nat). (home_range, niche_size)"
  let ?args = "[?mk home_range niche_size k. home_range \<leftarrow> cfg_home_ranges cfg,
      niche_size \<leftarrow> cfg_niche_sizes cfg, k \<leftarrow> [0..<?c]]"
  let ?idxs = "[(i, j, k). i \<leftarrow> [0..<?a], j \<leftarrow> [0..<?b], k \<leftarrow> [0..<?c]]"
  let ?N = "?a * (?b * ?c)"
  let ?task = "\<lambda>n args. get_single_oc_info (simulate n) args ?d (cfg_nums cfg)"
  let ?ws = "map (\<lambda>p. (?idxs ! p, ?task p (?args ! p))) [0..<?N]"
  let ?shp = "[?a, ?b, ?e, ?c, ?d]"
  let ?own = "\<lambda>x. {[fst x, fst (snd x), l, snd (snd x), m] |l m. l < ?e \<and> m < ?d}"
  let ?val = "\<lambda>(res :: ndarray) (c :: nat list). elems res [c ! 2, c ! 4]"
  have len_args: "length ?args = ?N" by (simp add: grid_length)
  have len_idxs: "length ?idxs = ?N" by (simp add: grid_length)
  have zipped: "zip ?idxs (map (\<lambda>p. ?task p (?args ! p)) [0..<?N]) = ?ws"
    using len_idxs by (rule zip_by_position)
  have run: "calculate_oc_info cfg simulate False
      = (Closed, store set_slab (np_zeros ?shp) ?ws)"
    unfolding calculate_oc_info_def pool_map_def Let_def len_args
    by (simp only: if_False sum.case zipped)
  have fsts: "map fst ?ws = ?idxs"
    using len_idxs by (rule positions_fst)
  have dist: "distinct (map fst ?ws)"
    unfolding fsts by (rule grid_distinct)
  have put: "\<And>a x r. shape a = ?shp \<Longrightarrow> (x, r) \<in> set ?ws \<Longrightarrow>
      \<exists>a'. set_slab a x r = Inr a' \<and> shape a' = ?shp \<and> (\<forall>c \<in> ?own x. elems a' c = ?val r c)
           \<and> (\<forall>c. c \<notin> ?own x \<longrightarrow> elems a' c = elems a c)"
  proof -
    fix a :: ndarray and x :: idx3 and r :: ndarray
    assume sh: "shape a = ?shp" and mem: "(x, r) \<in> set ?ws"
    obtain i j k where x: "x = (i, j, k)" by (cases x)
    from mem have "x \<in> set (map fst ?ws)" by (rule fst_in_set)
    then have "(i, j, k) \<in> set ?idxs" unfolding fsts x .
    then have b: "i < ?a" "j < ?b" "k < ?c" by (simp_all only: grid_set)
    from positions_snd [OF mem] have l: "shape r = [?e, ?d]"
      by (auto simp: get_single_oc_info_def Let_def)
    from set_slab_put [OF sh b l] show "\<exists>a'. set_slab a x r = Inr a' \<and> shape a' = ?shp
           \<and> (\<forall>c \<in> ?own x. elems a' c = ?val r c)
           \<and> (\<forall>c. c \<notin> ?own x \<longrightarrow> elems a' c = elems a c)"
      unfolding x by simp
  qed
  have disj: "\<And>x y. x \<noteq> y \<Longrightarrow> ?own x \<inter> ?own y = {}"
    by (auto simp: prod_eq_iff)
  have "shape (np_zeros ?shp) = ?shp" by (simp add: np_zeros_def)
  from store_cells [of ?shp ?ws set_slab ?own ?val, OF put disj dist this]
  obtain t where tt: "store set_slab (np_zeros ?shp) ?ws = Inr t \<and> shape t = ?shp
    \<and> (\<forall>x r c. (x, r) \<in> set ?ws \<longrightarrow> c \<in> ?own x \<longrightarrow> elems t c = ?val r c)
    \<and> (\<forall>c. (\<forall>x r. (x, r) \<in> set ?ws \<longrightarrow> c \<notin> ?own x) \<longrightarrow> elems t c = elems (np_zeros ?shp) c)" ..
  note t = tt [THEN conjunct1] tt [THEN conjunct2, THEN conjunct1]
    tt [THEN conjunct2, THEN conjunct2, THEN conjunct1]
  have cells: "\<forall>i j k l m. i < ?a \<longrightarrow> j < ?b \<longrightarrow> k < ?c \<longrightarrow> l < ?e \<longrightarrow> m < ?d \<longrightarrow>
      elems t [i, j, l, k, m] = simulate ((i * ?b + j) * ?c + k)
         (cfg_home_ranges cfg ! i, cfg_niche_sizes cfg ! j) l (cfg_nums cfg ! l) m"
  proof (intro allI impI)
    fix i j k l m
    assume b: "i < ?a" "j < ?b" "k < ?c" "l < ?e" "m < ?d"
    let ?p = "(i * ?b + j) * ?c + k"
    from b(1-3) have p: "?p < ?N" by (intro grid_position_less)
    have ix: "?idxs ! ?p = (i, j, k)"
      using b(1-3) by (rule upt_grid_nth)
    have ar: "?args ! ?p = ?mk (cfg_home_ranges cfg ! i) (cfg_niche_sizes cfg ! j) k"
      using b(1-3) by (rule values_grid_nth)
    from p have "(?idxs ! ?p, ?task ?p (?args ! ?p)) \<in> set ?ws" by (rule positions_mem)
    then have mem: "((i, j, k), ?task ?p (?mk (cfg_home_ranges cfg ! i) (cfg_niche_sizes cfg ! j) k)) \<in> set ?ws"
      unfolding ix ar .
    from b have own: "[i, j, l, k, m] \<in> ?own (i, j, k)" by simp
    from t(3) [rule_format, OF mem own]
    have "elems t [i, j, l, k, m]
        = ?val (?task ?p (?mk (cfg_home_ranges cfg ! i) (cfg_niche_sizes cfg ! j) k)) [i, j, l, k, m]" .
    with b show "elems t [i, j, l, k, m] = simulate ?p
         (cfg_home_ranges cfg ! i, cfg_niche_sizes cfg ! j) l (cfg_nums cfg ! l) m"
      by (simp add: get_single_oc_info_def Let_def)
  qed
  have "calculate_oc_info cfg simulate False = (Closed, Inr t)"
    by (simp only: run t(1))
  with t(2) cells show ?thesis by (intro exI conjI)
qed

text \<open>
  C1: in a run that is not interrupted, the value at grid index (i, j, k) of the result
  array is the one returned by the task built from the i-th value of the first axis and the
  j-th value of the second, submitted at position (i * n2 + j) * num\_worlds + k, that is for
  world k: for the velocity calibrator (whose tasks return one value per trial) row
  [i, j, k, :], for the ollin occupancy calibrator the slab [i, j, :, k, :].
\<close>

theorem results_in_submission_order:
  assumes "\<forall>n info. info_num info = trials_per_world self
             \<longrightarrow> length (task n info) = trials_per_world self"
  shows "(\<exists>t. calculate_velocity_info self task False = (Closed, Inr t)
           \<and> shape t = [length (velocities self), length (niche_sizes self), num_worlds self,
                        trials_per_world self]
           \<and> (\<forall>i j k m. i < length (velocities self) \<longrightarrow> j < length (niche_sizes self) \<longrightarrow>
                 k < num_worlds self \<longrightarrow> m < trials_per_world self \<longrightarrow>
                 elems t [i, j, k, m] =
                   task ((i * length (niche_sizes self) + j) * num_worlds self + k)
                     \<lparr>info_movement_model = movement_model self,
                      info_velocity = velocities self ! i,
                      info_niche_size = niche_sizes self ! j,
                      info_num = trials_per_world self,
                      info_range = range_km self\<rparr> ! m))
       \<and> (\<exists>t. calculate_oc_info cfg simulate False = (Closed, Inr t)
           \<and> shape t = [length (cfg_home_ranges cfg), length (cfg_niche_sizes cfg),
                        length (cfg_nums cfg), cfg_num_worlds cfg, cfg_trials_per_world cfg]
           \<and> (\<forall>i j k l m. i < length (cfg_home_ranges cfg) \<longrightarrow> j < length (cfg_niche_sizes cfg) \<longrightarrow>
                 k < cfg_num_worlds cfg \<longrightarrow> l < length (cfg_nums cfg) \<longrightarrow>
                 m < cfg_trials_per_world cfg \<longrightarrow>
                 elems t [i, j, l, k, m] =
                   simulate ((i * length (cfg_niche_sizes cfg) + j) * cfg_num_worlds cfg + k)
                     (cfg_home_ranges cfg ! i, cfg_niche_sizes cfg ! j) l (cfg_nums cfg ! l) m))"
  using harness_cells [OF assms] oc_cells [of cfg simulate] by (rule conjI)

theorem results_in_submission_order_witness:
  "(\<exists>t. calculate_velocity_info (VelocityCalibrator_init () [1, 2] [3, 4, 5] 2 2 20)
          (\<lambda>n info. [real n, info_velocity info + info_niche_size info]) False = (Closed, Inr t)
        \<and> elems t [1, 2, 1, 0] = 11 \<and> elems t [1, 2, 1, 1] = 7)
   \<and> (\<exists>t. calculate_oc_info
            \<lparr>cfg_trials_per_world = 2, cfg_max_individuals = 100, cfg_niche_sizes = [3, 4, 5],
             cfg_home_ranges = [1, 2], cfg_num_worlds = 2, cfg_nums = [10, 50], cfg_season = 90,
             cfg_range = (20, 20)\<rparr>
            (\<lambda>n args l num m. real n + fst args) False = (Closed, Inr t)
        \<and> elems t [1, 2, 1, 1, 0] = 13)"
proof -
  let ?self = "VelocityCalibrator_init () [1, 2] [3, 4, 5] 2 2 20"
  let ?task = "\<lambda>(n::nat) (info :: unit Info). [real n, info_velocity info + info_niche_size info]"
  let ?cfg = "\<lparr>cfg_trials_per_world = 2, cfg_max_individuals = 100, cfg_niche_sizes = [3, 4, 5],
             cfg_home_ranges = [1, 2], cfg_num_worlds = 2, cfg_nums = [10, 50], cfg_season = 90,
             cfg_range = (20, 20)\<rparr>"
  let ?sim = "\<lambda>(n::nat) (args :: real \<times> real) (l::nat) (num::nat) (m::nat). real n + fst args"
  have rows: "\<forall>n info. info_num info = trials_per_world ?self
             \<longrightarrow> length (?task n info) = trials_per_world ?self"
    by (simp add: VelocityCalibrator_init_def)
  note inst = results_in_submission_order [OF rows, of ?cfg ?sim]
  from inst [THEN conjunct1] obtain t where
    t: "calculate_velocity_info ?self ?task False = (Closed, Inr t)"
    and cells: "\<forall>i j k m. i < length (velocities ?self) \<longrightarrow> j < length (niche_sizes ?self) \<longrightarrow>
                 k < num_worlds ?self \<longrightarrow> m < trials_per_world ?self \<longrightarrow>
                 elems t [i, j, k, m] =
                   ?task ((i * length (niche_sizes ?self) + j) * num_worlds ?self + k)
                     \<lparr>info_movement_model = movement_model ?self,
                      info_velocity = velocities ?self ! i,
                      info_niche_size = niche_sizes ?self ! j,
                      info_num = trials_per_world ?self,
                      info_range = range_km ?self\<rparr> ! m"
    by blast
  have v0: "elems t [1, 2, 1, 0] = 11"
    using cells [rule_format, of 1 2 1 0] by (simp add: VelocityCalibrator_init_def)
  have v1: "elems t [1, 2, 1, 1] = 7"
    using cells [rule_format, of 1 2 1 1] by (simp add: VelocityCalibrator_init_def)
  from inst [THEN conjunct2] obtain s where
    s: "calculate_oc_info ?cfg ?sim False = (Closed, Inr s)"
    and slabs: "\<forall>i j k l m. i < length (cfg_home_ranges ?cfg) \<longrightarrow> j < length (cfg_niche_sizes ?cfg) \<longrightarrow>
                 k < cfg_num_worlds ?cfg \<longrightarrow> l < length (cfg_nums ?cfg) \<longrightarrow>
                 m < cfg_trials_per_world ?cfg \<longrightarrow>
                 elems s [i, j, l, k, m] =
                   ?sim ((i * length (cfg_niche_sizes ?cfg) + j) * cfg_num_worlds ?cfg + k)
                     (cfg_home_ranges ?cfg ! i, cfg_niche_sizes ?cfg ! j) l (cfg_nums ?cfg ! l) m"
    by blast
  have o: "elems s [1, 2, 1, 1, 0] = 13"
    using slabs [rule_format, of 1 2 1 1 0] by simp
  from t v0 v1 s o show ?thesis by blast
qed

text \<open>
  C5, on the code: when the interrupt arrives while the harness waits for the results, the
  velocity and home-range calibrators terminate the pool and raise SystemExit
  (\<^verbatim>\<open>pool.terminate(); sys.exit()\<close>); the ollin occupancy calibrator terminates the pool
  and raises KeyboardInterrupt again.
\<close>

theorem interrupt_outcome:
  "calculate_velocity_info self task True = (Terminated, Inl SystemExit)
   \<and> calculate_hr_info self task True = (Terminated, Inl SystemExit)
   \<and> calculate_oc_info cfg simulate True = (Terminated, Inl KeyboardInterrupt)"
  unfolding calculate_velocity_info_def calculate_hr_info_def calculate_oc_info_def
    pool_map_def Let_def
  by (simp only: if_True sum.case simp_thms)

text \<open>
  C6, on the code: \<^verbatim>\<open>HomeRangeCalibrator.__init__\<close> stores the module constants, whatever
  world count and trials-per-world count it is given; built with 2 worlds and 5 trials per
  world over one velocity and one niche size, its array has shape (1, 1, 10, 1000).
\<close>

theorem home_range_counts_are_constants:
  "trials_per_world (HomeRangeCalibrator_init mov vels nszs tpw nw rng) = 1000
   \<and> num_worlds (HomeRangeCalibrator_init mov vels nszs tpw nw rng) = 10
   \<and> (\<exists>t. HomeRangeCalibrator mov [0.1] [0.2] 5 2 20 (\<lambda>n info. replicate (info_num info) 0) False
             = (Closed, Inr t)
          \<and> shape t = [1, 1, 10, 1000])"
proof -
  let ?self = "HomeRangeCalibrator_init mov [0.1] [0.2] 5 2 20"
  let ?task = "\<lambda>(n::nat) (info :: 'a Info). replicate (info_num info) (0::real)"
  have "\<forall>n info. info_num info = trials_per_world ?self
             \<longrightarrow> length (?task n info) = trials_per_world ?self"
    by simp
  from harness_cells [OF this] obtain t where
    "calculate_velocity_info ?self ?task False = (Closed, Inr t)"
    "shape t = [length (velocities ?self), length (niche_sizes ?self), num_worlds ?self,
                trials_per_world ?self]"
    by blast
  then have "HomeRangeCalibrator mov [0.1] [0.2] 5 2 20 ?task False = (Closed, Inr t)
      \<and> shape t = [1, 1, 10, 1000]"
    by (simp add: HomeRangeCalibrator_def hr_info_as_velocity_info HomeRangeCalibrator_init_def
        TRIALS_PER_WORLD_def NUM_WORLDS_def)
  then show ?thesis
    by (auto simp: HomeRangeCalibrator_init_def TRIALS_PER_WORLD_def NUM_WORLDS_def)
qed

subsection \<open>The regression targets\<close>

lemma np_logit_interior: "0 < y \<Longrightarrow> y < 1 \<Longrightarrow> np_logit y = Finite (logit y)"
  by (simp add: np_logit_def np_divide_def logit_def field_simps)

lemma np_logit_zero_one: "np_logit 0 = NegInf \<and> np_logit 1 = PosInf"
  by (simp add: np_logit_def np_divide_def)

lemma is_finite_np_logit: "is_finite (np_logit y) \<longleftrightarrow> 0 < y \<and> y < 1"
proof (cases "0 < y \<and> y < 1")
  case True
  then show ?thesis by (simp add: np_logit_interior)
next
  case False
  show ?thesis
  proof (cases "y = 0")
    case True
    then show ?thesis by (simp add: np_logit_zero_one)
  next
    case nz: False
    with False have "y < 0 \<or> 1 \<le> y" by linarith
    then have "1 / y - 1 \<le> 0"
    proof
      assume "y < 0"
      then have "1 / y < 0" by simp
      then show ?thesis by simp
    next
      assume "1 \<le> y"
      then have "1 / y \<le> 1" by simp
      then show ?thesis by simp
    qed
    with nz False show ?thesis
      by (auto simp: np_logit_def np_divide_def)
  qed
qed

lemma ravel_cell_set:
  "set (ravel_cell data j i k)
   = {elems data [j, i, k, l, m] |l m. l < shape data ! 3 \<and> m < shape data ! 4}"
  by (auto simp: ravel_cell_def) blast

lemma ravel_cell_length:
  "length (ravel_cell data j i k) = shape data ! 3 * (shape data ! 4)"
  by (simp add: ravel_cell_def concat_uniform_length)


lemma ravel_cell_nth:
  assumes "l < shape data ! 3" "m < shape data ! 4"
  shows "ravel_cell data j i k ! (l * (shape data ! 4) + m) = elems data [j, i, k, l, m]"
proof -
  have "concat (map (\<lambda>l. map (\<lambda>m. elems data [j, i, k, l, m]) [0..<shape data ! 4]) [0..<shape data ! 3])
          ! (l * (shape data ! 4) + m)
      = map (\<lambda>m. elems data [j, i, k, [0..<shape data ! 3] ! l, m]) [0..<shape data ! 4] ! m"
    using assms by (intro concat_uniform_nth) simp_all
  with assms show ?thesis by (simp add: ravel_cell_def)
qed

lemma cells_in_shape:
  "list_all (\<lambda>(i, j, k). j < b \<and> i < a \<and> k < c) [(i, j, k). i \<leftarrow> [0..<a], j \<leftarrow> [0..<b], k \<leftarrow> [0..<c]]"
  by (auto simp: list_all_iff)

lemma cells_empty_iff:
  "[(i, j, k). i \<leftarrow> [0..<a], j \<leftarrow> [0..<b], k \<leftarrow> [0..<c]] = [] \<longleftrightarrow> a = 0 \<or> b = 0 \<or> c = 0"
proof -
  have "length [(i, j, k). i \<leftarrow> [0..<a], j \<leftarrow> [0..<b], k \<leftarrow> [0..<c]] = a * (b * c)"
    by (simp only: grid_length length_upt diff_zero)
  then have "length [(i, j, k). i \<leftarrow> [0..<a], j \<leftarrow> [0..<b], k \<leftarrow> [0..<c]] = 0
      \<longleftrightarrow> a = 0 \<or> b = 0 \<or> c = 0"
    by (simp only: mult_eq_0_iff)
  then show ?thesis by (simp only: length_0_conv)
qed

lemma targets_set:
  "set (concat (map (\<lambda>(i, j, k). map lg (ravel_cell data j i k))
                  [(i, j, k). i \<leftarrow> [0..<a], j \<leftarrow> [0..<b], k \<leftarrow> [0..<c]]))
   = {lg (elems data [j, i, k, l, m]) |i j k l m.
        i < a \<and> j < b \<and> k < c \<and> l < shape data ! 3 \<and> m < shape data ! 4}"
proof (intro set_eqI iffI)
  let ?cells = "[(i, j, k). i \<leftarrow> [0..<a], j \<leftarrow> [0..<b], k \<leftarrow> [0..<c]]"
  let ?g = "\<lambda>(i, j, k). map lg (ravel_cell data j i k)"
  fix y
  assume "y \<in> set (concat (map ?g ?cells))"
  then obtain x where x: "x \<in> set ?cells" "y \<in> set (?g x)"
    unfolding set_concat set_map by blast
  obtain i j k where xe: "x = (i, j, k)" by (cases x)
  from x(1) have b: "i < a" "j < b" "k < c" unfolding xe by (simp_all only: grid_set)
  from x(2) obtain l m where "y = lg (elems data [j, i, k, l, m])"
      "l < shape data ! 3" "m < shape data ! 4"
    unfolding xe by (auto simp: ravel_cell_set)
  with b show "y \<in> {lg (elems data [j, i, k, l, m]) |i j k l m.
        i < a \<and> j < b \<and> k < c \<and> l < shape data ! 3 \<and> m < shape data ! 4}"
    by blast
next
  let ?cells = "[(i, j, k). i \<leftarrow> [0..<a], j \<leftarrow> [0..<b], k \<leftarrow> [0..<c]]"
  let ?g = "\<lambda>(i, j, k). map lg (ravel_cell data j i k)"
  fix y
  assume "y \<in> {lg (elems data [j, i, k, l, m]) |i j k l m.
        i < a \<and> j < b \<and> k < c \<and> l < shape data ! 3 \<and> m < shape data ! 4}"
  then obtain i j k l m where y: "y = lg (elems data [j, i, k, l, m])"
    and b: "i < a \<and> j < b \<and> k < c" and r: "l < shape data ! 3" "m < shape data ! 4"
    by blast
  from b have "(i, j, k) \<in> set ?cells" by (simp only: grid_set)
  moreover from r have "elems data [j, i, k, l, m] \<in> set (ravel_cell data j i k)"
    unfolding ravel_cell_set by blast
  then have "y \<in> set (?g (i, j, k))" unfolding y by simp
  ultimately show "y \<in> set (concat (map ?g ?cells))"
    unfolding set_concat set_map by blast
qed

lemma targets_length:
  "length (concat (map (\<lambda>(i, j, k). map lg (ravel_cell data j i k))
                     [(i, j, k). i \<leftarrow> [0..<a], j \<leftarrow> [0..<b], k \<leftarrow> [0..<c]]))
   = a * (b * c) * (shape data ! 3 * (shape data ! 4))"
proof -
  have "length (concat (map (\<lambda>(i, j, k). map lg (ravel_cell data j i k))
                     [(i, j, k). i \<leftarrow> [0..<a], j \<leftarrow> [0..<b], k \<leftarrow> [0..<c]]))
      = length [(i, j, k). i \<leftarrow> [0..<a], j \<leftarrow> [0..<b], k \<leftarrow> [0..<c]]
          * (shape data ! 3 * (shape data ! 4))"
    by (rule concat_uniform_length) (auto simp: ravel_cell_length)
  then show ?thesis by (simp only: grid_length length_upt diff_zero)
qed

lemma targets_nth:
  assumes "i < a" "j < b" "k < c" "l < shape data ! 3" "m < shape data ! 4"
  shows "concat (map (\<lambda>(i, j, k). map lg (ravel_cell data j i k))
                     [(i, j, k). i \<leftarrow> [0..<a], j \<leftarrow> [0..<b], k \<leftarrow> [0..<c]])
           ! (((i * b + j) * c + k) * (shape data ! 3 * (shape data ! 4)) + (l * (shape data ! 4) + m))
         = lg (elems data [j, i, k, l, m])"
proof -
  let ?cells = "[(i, j, k). i \<leftarrow> [0..<a], j \<leftarrow> [0..<b], k \<leftarrow> [0..<c]]"
  let ?g = "\<lambda>(i, j, k). map lg (ravel_cell data j i k)"
  let ?n = "shape data ! 3 * (shape data ! 4)"
  let ?q = "(i * b + j) * c + k"
  from assms have q: "?q < length ?cells"
    by (simp only: grid_length length_upt diff_zero grid_position_less)
  from assms have r: "l * (shape data ! 4) + m < ?n" by (intro offset_less)
  have "concat (map ?g ?cells) ! (?q * ?n + (l * (shape data ! 4) + m))
      = ?g (?cells ! ?q) ! (l * (shape data ! 4) + m)"
    using q r by (intro concat_uniform_nth) (auto simp: ravel_cell_length)
  also have "?cells ! ?q = (i, j, k)" using assms(1-3) by (rule upt_grid_nth)
  finally show ?thesis using assms r by (simp add: ravel_cell_length ravel_cell_nth)
qed

lemma fit_XY_targets:
  assumes "shape data = [length (cfg_home_ranges cfg), length (cfg_niche_sizes cfg),
                         length (cfg_nums cfg), nw, tpw]"
    and "cfg_niche_sizes cfg \<noteq> []" "cfg_home_ranges cfg \<noteq> []" "cfg_nums cfg \<noteq> []"
  shows "\<exists>X. fit_XY lg cfg data =
           Inr (X, concat (map (\<lambda>(i, j, k). map lg (ravel_cell data j i k))
                  [(i, j, k). i \<leftarrow> [0..<length (cfg_niche_sizes cfg)],
                              j \<leftarrow> [0..<length (cfg_home_ranges cfg)],
                              k \<leftarrow> [0..<length (cfg_nums cfg)]]))"
  using assms
  by (simp add: fit_XY_def Let_def cells_in_shape cells_empty_iff del: concat_eq_Nil_conv)

lemma fit_XY_empty_axis:
  assumes "cfg_niche_sizes cfg = [] \<or> cfg_home_ranges cfg = [] \<or> cfg_nums cfg = []"
  shows "fit_XY lg cfg data = Inl ValueError"
  using assms
  by (simp add: fit_XY_def Let_def cells_empty_iff del: concat_eq_Nil_conv)

text \<open>
  C4, as stated: a sample equal to 0 or 1 would be excluded or clamped before the logit. With
  one cell holding the samples 0 and 1, the function put in the place of the logit receives
  exactly 0 and 1 (seen with the embedding \<open>Finite\<close> in its place), and with the logit the
  regression targets are minus and plus infinity.
\<close>

theorem logit_unfiltered_counterexample:
  "map_sum id snd
     (fit_XY Finite
        \<lparr>cfg_trials_per_world = 2, cfg_max_individuals = 100, cfg_niche_sizes = [1 / 2],
         cfg_home_ranges = [1], cfg_num_worlds = 1, cfg_nums = [10], cfg_season = 90,
         cfg_range = (20, 20)\<rparr>
        \<lparr>shape = [1, 1, 1, 1, 2], elems = \<lambda>ix. if ix = [0, 0, 0, 0, 1] then 1 else 0\<rparr>)
   = Inr [Finite 0, Finite 1]
   \<and> map_sum id snd
     (fit_XY np_logit
        \<lparr>cfg_trials_per_world = 2, cfg_max_individuals = 100, cfg_niche_sizes = [1 / 2],
         cfg_home_ranges = [1], cfg_num_worlds = 1, cfg_nums = [10], cfg_season = 90,
         cfg_range = (20, 20)\<rparr>
        \<lparr>shape = [1, 1, 1, 1, 2], elems = \<lambda>ix. if ix = [0, 0, 0, 0, 1] then 1 else 0\<rparr>)
   = Inr [NegInf, PosInf]"
  by (simp add: fit_XY_def Let_def ravel_cell_def np_logit_def np_divide_def upt_conv_Cons)

text \<open>
  C4, amended: when no swept axis is empty, the fitting step applies the logit to every
  sample of the result tensor, with no exclusion and no clamping: the regression targets
  hold one entry per sample, the entry of sample [j, i, k, l, m] being its logit, so they are
  all finite exactly when the logit of every sample is. The logit is finite exactly on the
  samples strictly between 0 and 1; a sample 0 gives minus infinity and a sample 1 plus
  infinity.
\<close>

theorem fit_targets_unfiltered:
  assumes "shape data = [length (cfg_home_ranges cfg), length (cfg_niche_sizes cfg),
                         length (cfg_nums cfg), nw, tpw]"
    and "cfg_niche_sizes cfg \<noteq> []" "cfg_home_ranges cfg \<noteq> []" "cfg_nums cfg \<noteq> []"
  shows "(\<exists>X Y. fit_XY lg cfg data = Inr (X, Y)
     \<and> length Y = length (cfg_niche_sizes cfg)
                    * (length (cfg_home_ranges cfg) * length (cfg_nums cfg)) * (nw * tpw)
     \<and> (\<forall>i j k l m. i < length (cfg_niche_sizes cfg) \<and> j < length (cfg_home_ranges cfg)
           \<and> k < length (cfg_nums cfg) \<and> l < nw \<and> m < tpw \<longrightarrow>
           Y ! (((i * length (cfg_home_ranges cfg) + j) * length (cfg_nums cfg) + k) * (nw * tpw)
                + (l * tpw + m))
             = lg (elems data [j, i, k, l, m]))
     \<and> ((\<forall>y \<in> set Y. is_finite y) \<longleftrightarrow>
          (\<forall>i j k l m. i < length (cfg_niche_sizes cfg) \<and> j < length (cfg_home_ranges cfg)
             \<and> k < length (cfg_nums cfg) \<and> l < nw \<and> m < tpw \<longrightarrow>
             is_finite (lg (elems data [j, i, k, l, m])))))
     \<and> (\<forall>y. is_finite (np_logit y) \<longleftrightarrow> 0 < y \<and> y < 1)
     \<and> np_logit 0 = NegInf \<and> np_logit 1 = PosInf
     \<and> (\<forall>y. 0 < y \<and> y < 1 \<longrightarrow> np_logit y = Finite (logit y))"
proof -
  let ?a = "length (cfg_niche_sizes cfg)" and ?b = "length (cfg_home_ranges cfg)"
  let ?c = "length (cfg_nums cfg)"
  let ?Y = "concat (map (\<lambda>(i, j, k). map lg (ravel_cell data j i k))
                  [(i, j, k). i \<leftarrow> [0..<?a], j \<leftarrow> [0..<?b], k \<leftarrow> [0..<?c]])"
  from assms(1) have d: "shape data ! 3 = nw" "shape data ! 4 = tpw" by simp_all
  from fit_XY_targets [OF assms] obtain X where run: "fit_XY lg cfg data = Inr (X, ?Y)" ..
  have len: "length ?Y = ?a * (?b * ?c) * (nw * tpw)"
    using targets_length [where data = data and a = ?a and b = ?b and c = ?c and lg = lg]
    unfolding d .
  have nth: "\<forall>i j k l m. i < ?a \<and> j < ?b \<and> k < ?c \<and> l < nw \<and> m < tpw \<longrightarrow>
      ?Y ! (((i * ?b + j) * ?c + k) * (nw * tpw) + (l * tpw + m))
        = lg (elems data [j, i, k, l, m])"
  proof (intro allI impI)
    fix i j k l m
    assume b: "i < ?a \<and> j < ?b \<and> k < ?c \<and> l < nw \<and> m < tpw"
    then have "i < ?a" "j < ?b" "k < ?c" "l < shape data ! 3" "m < shape data ! 4"
      unfolding d by simp_all
    from targets_nth [OF this]
    show "?Y ! (((i * ?b + j) * ?c + k) * (nw * tpw) + (l * tpw + m))
        = lg (elems data [j, i, k, l, m])"
      unfolding d .
  qed
  have fin: "(\<forall>y \<in> set ?Y. is_finite y) \<longleftrightarrow>
      (\<forall>i j k l m. i < ?a \<and> j < ?b \<and> k < ?c \<and> l < nw \<and> m < tpw \<longrightarrow>
         is_finite (lg (elems data [j, i, k, l, m])))"
    unfolding targets_set d by blast
  have first: "\<exists>X Y. fit_XY lg cfg data = Inr (X, Y)
     \<and> length Y = ?a * (?b * ?c) * (nw * tpw)
     \<and> (\<forall>i j k l m. i < ?a \<and> j < ?b \<and> k < ?c \<and> l < nw \<and> m < tpw \<longrightarrow>
           Y ! (((i * ?b + j) * ?c + k) * (nw * tpw) + (l * tpw + m))
             = lg (elems data [j, i, k, l, m]))
     \<and> ((\<forall>y \<in> set Y. is_finite y) \<longleftrightarrow>
          (\<forall>i j k l m. i < ?a \<and> j < ?b \<and> k < ?c \<and> l < nw \<and> m < tpw \<longrightarrow>
             is_finite (lg (elems data [j, i, k, l, m]))))"
    using run len nth fin by (intro exI conjI)
  have finite_iff: "\<forall>y. is_finite (np_logit y) \<longleftrightarrow> 0 < y \<and> y < 1"
    by (simp add: is_finite_np_logit)
  have edge: "np_logit 0 = NegInf" "np_logit 1 = PosInf"
    using np_logit_zero_one by simp_all
  have inner: "\<forall>y. 0 < y \<and> y < 1 \<longrightarrow> np_logit y = Finite (logit y)"
    by (simp add: np_logit_interior)
  from first finite_iff edge inner show ?thesis
    by (intro conjI)
qed

theorem fit_targets_unfiltered_witness:
  "\<exists>X Y. fit_XY np_logit
            \<lparr>cfg_trials_per_world = 2, cfg_max_individuals = 100, cfg_niche_sizes = [1 / 2],
             cfg_home_ranges = [1], cfg_num_worlds = 1, cfg_nums = [10], cfg_season = 90,
             cfg_range = (20, 20)\<rparr>
            \<lparr>shape = [1, 1, 1, 1, 2], elems = \<lambda>ix. 1 / 2\<rparr> = Inr (X, Y)
     \<and> length Y = 2 \<and> Y ! 1 = Finite 0"
proof -
  let ?cfg = "\<lparr>cfg_trials_per_world = 2, cfg_max_individuals = 100, cfg_niche_sizes = [1 / 2],
              cfg_home_ranges = [1], cfg_num_worlds = 1, cfg_nums = [10], cfg_season = 90,
              cfg_range = (20, 20)\<rparr>"
  let ?data = "\<lparr>shape = [1, 1, 1, 1, 2], elems = \<lambda>ix. 1 / 2 :: real\<rparr>"
  have shp: "shape ?data = [length (cfg_home_ranges ?cfg), length (cfg_niche_sizes ?cfg),
                         length (cfg_nums ?cfg), 1, 2]"
    by simp
  have ne: "cfg_niche_sizes ?cfg \<noteq> []" "cfg_home_ranges ?cfg \<noteq> []" "cfg_nums ?cfg \<noteq> []"
    by simp_all
  from fit_targets_unfiltered [OF shp ne, of np_logit, THEN conjunct1] obtain X Y where
    run: "fit_XY np_logit ?cfg ?data = Inr (X, Y)"
    and len: "length Y = length (cfg_niche_sizes ?cfg)
                    * (length (cfg_home_ranges ?cfg) * length (cfg_nums ?cfg)) * (1 * 2)"
    and nth: "\<forall>i j k l m. i < length (cfg_niche_sizes ?cfg) \<and> j < length (cfg_home_ranges ?cfg)
           \<and> k < length (cfg_nums ?cfg) \<and> l < 1 \<and> m < 2 \<longrightarrow>
           Y ! (((i * length (cfg_home_ranges ?cfg) + j) * length (cfg_nums ?cfg) + k) * (1 * 2)
                + (l * 2 + m))
             = np_logit (elems ?data [j, i, k, l, m])"
    by blast
  from len have l2: "length Y = 2" by simp
  from nth [rule_format, of 0 0 0 0 1] have "Y ! 1 = np_logit (1 / 2)" by simp
  then have "Y ! 1 = Finite 0" by (simp add: np_logit_def np_divide_def)
  with run l2 show ?thesis by blast
qed

end
